theory Spec2Isabelle
  imports Main "HOL-Library.Word"
begin

section \<open>JavaScript strings\<close>

text \<open>
  A JavaScript string is a sequence of UTF-16 code units, and \<open>length\<close>, \<open>replace\<close> with
  a regular expression without the \<open>u\<close> flag, \<open>charCodeAt\<close> and \<open>endsWith\<close> all work
  on code units. The model keeps that: a string is a list of 16-bit words.
\<close>

type_synonym jschar = "16 word"
type_synonym jsstring = "jschar list"

text \<open>An ASCII literal of the source, as code units.\<close>

definition js :: "string \<Rightarrow> jsstring" where
  "js s = map of_char s"

section \<open>Glyph names\<close>

text \<open>
  The character class \<open>[a-zA-Z0-9]\<close> of the regular expression in \<open>sanitizeGlyphName\<close>:
  the three ranges, in the order they are written there.
\<close>

definition is_alnum :: "jschar \<Rightarrow> bool" where
  "is_alnum c \<longleftrightarrow>
     (0x61 \<le> c \<and> c \<le> 0x7A) \<or> (0x41 \<le> c \<and> c \<le> 0x5A) \<or> (0x30 \<le> c \<and> c \<le> 0x39)"

text \<open>
  \<open>s.replace(/C/g, r)\<close> for a pattern \<open>C\<close> that matches exactly one code unit: every
  match is replaced by the string \<open>r\<close>, everything else is copied.
\<close>

definition replace_all :: "(jschar \<Rightarrow> bool) \<Rightarrow> jsstring \<Rightarrow> jsstring \<Rightarrow> jsstring" where
  "replace_all matches replacement s =
     concat (map (\<lambda>c. if matches c then replacement else [c]) s)"

text \<open>\<open>name.replace(/[^a-zA-Z0-9]/g, '-')\<close>\<close>

definition sanitizeGlyphName :: "jsstring \<Rightarrow> jsstring" where
  "sanitizeGlyphName name = replace_all (\<lambda>c. \<not> is_alnum c) (js ''-'') name"

section \<open>Code points\<close>

text \<open>
  \<open>String.fromCharCode(n)\<close> with one argument: a string of one code unit, the number
  converted by ToUint16, that is, taken modulo \<open>2^16\<close>.
\<close>

definition fromCharCode :: "nat \<Rightarrow> jsstring" where
  "fromCharCode n = [word_of_nat n]"

text \<open>\<open>s.charCodeAt(i)\<close>: the code unit at \<open>i\<close>; \<open>None\<close> stands for \<open>NaN\<close>.\<close>

definition charCodeAt :: "jsstring \<Rightarrow> nat \<Rightarrow> nat option" where
  "charCodeAt s i = (if i < length s then Some (unat (s ! i)) else None)"

text \<open>
  The string that \<open>generateFont\<close> stores as the glyph's \<open>unicode\<close> for the file at
  position \<open>index\<close>: \<open>String.fromCharCode(0xe000 + index)\<close>.
\<close>

definition glyphUnicode :: "nat \<Rightarrow> jsstring" where
  "glyphUnicode index = fromCharCode (0xe000 + index)"

text \<open>The number the stylesheet rule prints: \<open>unicode.charCodeAt(0)\<close>.\<close>

definition codePoint :: "nat \<Rightarrow> nat option" where
  "codePoint index = charCodeAt (glyphUnicode index) 0"

section \<open>The path module\<close>

text \<open>
  \<open>path.join\<close> and \<open>path.basename\<close> belong to the platform (Node.js, \<open>lib/path.js\<close>),
  not to this program. The model follows the POSIX variant of that module loop by loop,
  so that the quirks of the original are kept; indices that can be \<open>-1\<close> are integers.
\<close>

definition CHAR_FORWARD_SLASH :: jschar where
  "CHAR_FORWARD_SLASH = 0x2F"

definition CHAR_DOT :: jschar where
  "CHAR_DOT = 0x2E"

text \<open>\<open>s.slice(a, b)\<close> for \<open>0 \<le> a\<close> and \<open>0 \<le> b\<close>.\<close>

definition slice :: "jsstring \<Rightarrow> nat \<Rightarrow> nat \<Rightarrow> jsstring" where
  "slice s a b = take (b - a) (drop a s)"

text \<open>\<open>s.lastIndexOf(c)\<close> for a single code unit: \<open>-1\<close> when there is none.\<close>

fun lastIndexOf :: "jsstring \<Rightarrow> jschar \<Rightarrow> int" where
  "lastIndexOf [] c = -1"
| "lastIndexOf (x # xs) c =
     (let r = lastIndexOf xs c in
      if r \<noteq> -1 then r + 1 else if x = c then 0 else -1)"

text \<open>The variables of the loop in \<open>normalizeString\<close>.\<close>

record norm_state =
  res :: jsstring
  lastSegmentLength :: int
  lastSlash :: int
  dots :: int
  code :: jschar

text \<open>
  One round of that loop at index \<open>i\<close>, after \<open>code\<close> has been read. Every branch
  taken at a separator ends with \<open>lastSlash = i\<close> and \<open>dots = 0\<close>, also the two that
  leave the round by \<open>continue\<close>.
\<close>

definition normalize_body :: "jsstring \<Rightarrow> bool \<Rightarrow> nat \<Rightarrow> norm_state \<Rightarrow> norm_state" where
  "normalize_body path allowAboveRoot i st =
     (if code st = CHAR_FORWARD_SLASH then
        (if lastSlash st = int i - 1 \<or> dots st = 1 then
           st\<lparr>lastSlash := int i, dots := 0\<rparr>
         else if dots st = 2 then
           (if (length (res st) < 2 \<or> lastSegmentLength st \<noteq> 2
                 \<or> res st ! (length (res st) - 1) \<noteq> CHAR_DOT
                 \<or> res st ! (length (res st) - 2) \<noteq> CHAR_DOT)
               \<and> length (res st) > 2 then
              (let lastSlashIndex = lastIndexOf (res st) CHAR_FORWARD_SLASH in
               if lastSlashIndex = -1 then
                 st\<lparr>res := [], lastSegmentLength := 0, lastSlash := int i, dots := 0\<rparr>
               else
                 (let res' = slice (res st) 0 (nat lastSlashIndex) in
                  st\<lparr>res := res',
                     lastSegmentLength :=
                       int (length res') - 1 - lastIndexOf res' CHAR_FORWARD_SLASH,
                     lastSlash := int i, dots := 0\<rparr>))
            else if (length (res st) < 2 \<or> lastSegmentLength st \<noteq> 2
                 \<or> res st ! (length (res st) - 1) \<noteq> CHAR_DOT
                 \<or> res st ! (length (res st) - 2) \<noteq> CHAR_DOT)
               \<and> length (res st) \<noteq> 0 then
              st\<lparr>res := [], lastSegmentLength := 0, lastSlash := int i, dots := 0\<rparr>
            else if allowAboveRoot then
              st\<lparr>res := (if length (res st) > 0 then res st @ js ''/..'' else js ''..''),
                 lastSegmentLength := 2, lastSlash := int i, dots := 0\<rparr>
            else
              st\<lparr>lastSlash := int i, dots := 0\<rparr>)
         else
           st\<lparr>res :=
                (if length (res st) > 0
                 then res st @ [CHAR_FORWARD_SLASH] @ slice path (nat (lastSlash st + 1)) i
                 else slice path (nat (lastSlash st + 1)) i),
              lastSegmentLength := int i - lastSlash st - 1,
              lastSlash := int i, dots := 0\<rparr>)
      else if code st = CHAR_DOT \<and> dots st \<noteq> -1 then
        st\<lparr>dots := dots st + 1\<rparr>
      else
        st\<lparr>dots := -1\<rparr>)"

text \<open>
  \<open>for (let i = 0; i <= path.length; ++i)\<close>: inside the string the code unit is read;
  at the end the loop stops when the last code unit read was a separator, and otherwise
  runs one more round as if a separator followed.
\<close>

function normalize_loop :: "jsstring \<Rightarrow> bool \<Rightarrow> nat \<Rightarrow> norm_state \<Rightarrow> jsstring" where
  "normalize_loop path allowAboveRoot i st =
     (if i \<le> length path then
        (if i < length path then
           normalize_loop path allowAboveRoot (i + 1)
             (normalize_body path allowAboveRoot i (st\<lparr>code := path ! i\<rparr>))
         else if code st = CHAR_FORWARD_SLASH then res st
         else
           normalize_loop path allowAboveRoot (i + 1)
             (normalize_body path allowAboveRoot i (st\<lparr>code := CHAR_FORWARD_SLASH\<rparr>)))
      else res st)"
  by pat_completeness auto
termination
  by (relation "measure (\<lambda>(path, a, i, st). length path + 1 - i)") auto

declare normalize_loop.simps [simp del]

definition normalizeString :: "jsstring \<Rightarrow> bool \<Rightarrow> jsstring" where
  "normalizeString path allowAboveRoot =
     normalize_loop path allowAboveRoot 0
       \<lparr>res = [], lastSegmentLength = 0, lastSlash = -1, dots = 0, code = 0\<rparr>"

definition normalize :: "jsstring \<Rightarrow> jsstring" where
  "normalize path =
     (if length path = 0 then js ''.''
      else
        (let isAbsolute = (path ! 0 = CHAR_FORWARD_SLASH);
             trailingSeparator = (path ! (length path - 1) = CHAR_FORWARD_SLASH);
             path' = normalizeString path (\<not> isAbsolute)
         in if length path' = 0 then
              (if isAbsolute then js ''/'' else if trailingSeparator then js ''./'' else js ''.'')
            else
              (let path'' = (if trailingSeparator then path' @ js ''/'' else path')
               in if isAbsolute then js ''/'' @ path'' else path'')))"

text \<open>The loop of \<open>join\<close> over its arguments; \<open>None\<close> is \<open>undefined\<close>.\<close>

fun join_args :: "jsstring option \<Rightarrow> jsstring list \<Rightarrow> jsstring option" where
  "join_args joined [] = joined"
| "join_args joined (arg # args) =
     join_args
       (if length arg > 0 then
          (case joined of None \<Rightarrow> Some arg | Some j \<Rightarrow> Some (j @ js ''/'' @ arg))
        else joined) args"

text \<open>\<open>path.join(...args)\<close>\<close>

definition join :: "jsstring list \<Rightarrow> jsstring" where
  "join args =
     (if length args = 0 then js ''.''
      else case join_args None args of None \<Rightarrow> js ''.'' | Some joined \<Rightarrow> normalize joined)"

text \<open>The variables of the loops in \<open>basename\<close>.\<close>

record basename_state =
  start :: int
  end_pos :: int
  matchedSlash :: bool
  extIdx :: int
  firstNonSlashEnd :: int

text \<open>
  \<open>for (let i = path.length - 1; i >= 0; --i)\<close> when a suffix is given; the third
  argument is \<open>i + 1\<close>. Leaving the recursion with \<open>start\<close> set is the \<open>break\<close>.
\<close>

fun basename_suffix_loop ::
  "jsstring \<Rightarrow> jsstring \<Rightarrow> nat \<Rightarrow> basename_state \<Rightarrow> basename_state" where
  "basename_suffix_loop path suffix 0 st = st"
| "basename_suffix_loop path suffix (Suc i) st =
     (let code = path ! i in
      if code = CHAR_FORWARD_SLASH then
        (if \<not> matchedSlash st then st\<lparr>start := int i + 1\<rparr>
         else basename_suffix_loop path suffix i st)
      else
        (let st1 = (if firstNonSlashEnd st = -1
                    then st\<lparr>matchedSlash := False, firstNonSlashEnd := int i + 1\<rparr>
                    else st);
             st2 = (if extIdx st1 \<ge> 0 then
                      (if code = suffix ! nat (extIdx st1) then
                         (if extIdx st1 - 1 = -1
                          then st1\<lparr>extIdx := extIdx st1 - 1, end_pos := int i\<rparr>
                          else st1\<lparr>extIdx := extIdx st1 - 1\<rparr>)
                       else st1\<lparr>extIdx := -1, end_pos := firstNonSlashEnd st1\<rparr>)
                    else st1)
         in basename_suffix_loop path suffix i st2))"

text \<open>The loop of \<open>basename\<close> when no suffix applies.\<close>

fun basename_plain_loop :: "jsstring \<Rightarrow> nat \<Rightarrow> basename_state \<Rightarrow> basename_state" where
  "basename_plain_loop path 0 st = st"
| "basename_plain_loop path (Suc i) st =
     (if path ! i = CHAR_FORWARD_SLASH then
        (if \<not> matchedSlash st then st\<lparr>start := int i + 1\<rparr>
         else basename_plain_loop path i st)
      else if end_pos st = -1 then
        basename_plain_loop path i (st\<lparr>matchedSlash := False, end_pos := int i + 1\<rparr>)
      else basename_plain_loop path i st)"

text \<open>\<open>path.basename(path, suffix)\<close>, called with a suffix throughout this program.\<close>

definition basename :: "jsstring \<Rightarrow> jsstring \<Rightarrow> jsstring" where
  "basename path suffix =
     (let st0 = \<lparr>start = 0, end_pos = -1, matchedSlash = True,
                 extIdx = int (length suffix) - 1, firstNonSlashEnd = -1\<rparr>
      in if length suffix > 0 \<and> length suffix \<le> length path then
           (if suffix = path then []
            else
              (let st = basename_suffix_loop path suffix (length path) st0;
                   end' = (if start st = end_pos st then firstNonSlashEnd st
                           else if end_pos st = -1 then int (length path)
                           else end_pos st)
               in slice path (nat (start st)) (nat end')))
         else
           (let st = basename_plain_loop path (length path) st0
            in if end_pos st = -1 then [] else slice path (nat (start st)) (nat (end_pos st))))"

section \<open>Strings and numbers of the platform\<close>

text \<open>\<open>s.endsWith(searchString)\<close>\<close>

definition endsWith :: "jsstring \<Rightarrow> jsstring \<Rightarrow> bool" where
  "endsWith s searchString \<longleftrightarrow>
     length searchString \<le> length s
     \<and> slice s (length s - length searchString) (length s) = searchString"

text \<open>\<open>array.join(separator)\<close> on an array of strings.\<close>

fun array_join :: "jsstring \<Rightarrow> jsstring list \<Rightarrow> jsstring" where
  "array_join separator [] = []"
| "array_join separator [x] = x"
| "array_join separator (x # y # ys) = x @ separator @ array_join separator (y # ys)"

text \<open>The digit of \<open>Number.prototype.toString\<close> for a value below the radix.\<close>

definition digit_char :: "nat \<Rightarrow> jschar" where
  "digit_char d = (if d < 10 then word_of_nat (0x30 + d) else word_of_nat (0x61 + (d - 10)))"

text \<open>
  \<open>n.toString(radix)\<close> for a non-negative integer \<open>n\<close> and \<open>2 \<le> radix \<le> 36\<close>: no
  leading zero, lower-case letters.
\<close>

function natToString :: "nat \<Rightarrow> nat \<Rightarrow> jsstring" where
  "natToString radix n =
     (if radix < 2 \<or> n < radix then [digit_char n]
      else natToString radix (n div radix) @ [digit_char (n mod radix)])"
  by pat_completeness auto
termination
  by (relation "measure (\<lambda>(radix, n). n)") auto

declare natToString.simps [simp del]

text \<open>
  \<open>x.toString(radix)\<close> where \<open>x\<close> comes from \<open>charCodeAt\<close>: a code unit, or \<open>NaN\<close>
  (\<open>None\<close>), which prints as \<open>NaN\<close>.
\<close>

definition numberToString :: "nat \<Rightarrow> nat option \<Rightarrow> jsstring" where
  "numberToString radix x = (case x of None \<Rightarrow> js ''NaN'' | Some n \<Rightarrow> natToString radix n)"

section \<open>The glyphs and the stylesheet\<close>

text \<open>The object \<open>glyph.metadata\<close> that \<open>generateFont\<close> attaches to each read stream.\<close>

record glyph_metadata =
  unicode :: "jsstring list"
  name :: jsstring

text \<open>A glyph as written to the font stream: the file the read stream opens, and its metadata.\<close>

record glyph =
  source :: jsstring
  metadata :: glyph_metadata

text \<open>\<open>sanitizeGlyphName(path.basename(file, '.svg'))\<close>\<close>

definition glyphName :: "jsstring \<Rightarrow> jsstring" where
  "glyphName file = sanitizeGlyphName (basename file (js ''.svg''))"

definition glyph_of :: "jsstring \<Rightarrow> nat \<Rightarrow> glyph" where
  "glyph_of file index =
     \<lparr>source = file,
      metadata = \<lparr>unicode = [glyphUnicode index], name = glyphName file\<rparr>\<rparr>"

text \<open>Code units that cannot be written inside a literal here.\<close>

definition dq :: jsstring where "dq = [0x22]"
definition sq :: jsstring where "sq = [0x27]"
definition backslash :: jsstring where "backslash = [0x5C]"
definition newline :: jsstring where "newline = [0x0A]"

text \<open>
  The rule pushed to \<open>cssContent\<close> for one file: the template literal of line 89, where
  \<open>\\\<close> is one backslash.
\<close>

definition cssRule :: "jsstring \<Rightarrow> nat \<Rightarrow> jsstring" where
  "cssRule file index =
     js ''.icon-'' @ glyphName file @ js '':before { content: '' @ dq @ backslash
       @ numberToString 16 (charCodeAt (glyphUnicode index) 0) @ dq @ js ''; }''"

text \<open>\<open>svgFiles.forEach((file, index) => ...)\<close>: the files with their positions.\<close>

definition indexed :: "jsstring list \<Rightarrow> (jsstring \<times> nat) list" where
  "indexed svgFiles = zip svgFiles [0..<length svgFiles]"

definition glyphs :: "jsstring list \<Rightarrow> glyph list" where
  "glyphs svgFiles = map (\<lambda>(file, index). glyph_of file index) (indexed svgFiles)"

definition cssContent :: "jsstring list \<Rightarrow> jsstring list" where
  "cssContent svgFiles = map (\<lambda>(file, index). cssRule file index) (indexed svgFiles)"

text \<open>
  The template literal \<open>fontFace\<close>, line by line: it starts with a line break, and the
  lines but the last end with a space.
\<close>

definition fontFace_lines :: "jsstring \<Rightarrow> jsstring list" where
  "fontFace_lines fontName =
     [[],
      js ''@font-face { '',
      js ''  font-family: '' @ sq @ fontName @ sq @ js ''; '',
      js ''  src: url('' @ sq @ fontName @ js ''.woff2'' @ sq @ js '') format(''
        @ sq @ js ''woff2'' @ sq @ js ''); '',
      js ''  font-weight: normal; '',
      js ''  font-style: normal; '',
      js ''} '',
      js ''[class^='' @ dq @ js ''icon-'' @ dq @ js ''], [class*='' @ dq @ js '' icon-'' @ dq
        @ js ''] { '',
      js ''  font-family: '' @ sq @ fontName @ sq @ js '' !important; '',
      js ''  speak: none; '',
      js ''  font-style: normal; '',
      js ''  font-weight: normal; '',
      js ''  font-variant: normal; '',
      js ''  text-transform: none; '',
      js ''  line-height: 1; '',
      js ''  -webkit-font-smoothing: antialiased; '',
      js ''  -moz-osx-font-smoothing: grayscale; '',
      js ''}'']"

definition fontFace :: "jsstring \<Rightarrow> jsstring" where
  "fontFace fontName = array_join newline (fontFace_lines fontName)"

text \<open>The template literal \<open>cssOutput\<close> of line 136, for the rules in \<open>cssContent\<close>.\<close>

definition cssOutput :: "jsstring \<Rightarrow> jsstring list \<Rightarrow> jsstring" where
  "cssOutput fontName css = fontFace fontName @ newline @ newline @ array_join newline css"

section \<open>The run\<close>

text \<open>
  What a run reads from the outside, and the services it calls without defining them.
  A thrown value is kept as its message. The font stream, the two converters, the file
  system and the case conversion of the platform are taken as they answer: the behaviour
  of a run is stated for all of them.
\<close>

type_synonym js_error = jsstring
type_synonym bytes = "8 word list"

text \<open>A chunk the font stream hands to the \<open>data\<close> handler: a Buffer or a string.\<close>

datatype chunk = BufferChunk bytes | StringChunk jsstring

text \<open>
  An event the run sees after \<open>fontStream.end()\<close>. The \<open>data\<close>, \<open>error\<close> and
  \<open>finish\<close> events of the font stream go to the three handlers that \<open>generateFont\<close>
  registers (lines 94, 148 and 103); the handlers are independent of each other, so the
  stream may deliver any of them in any order and more than once. \<open>ReadError\<close> is an
  \<open>error\<close> event of the read stream of a glyph (line 79), for which no handler is
  registered.
\<close>

datatype stream_event = Data chunk | StreamError js_error | Finish | ReadError js_error

text \<open>What \<open>saveFile\<close> is given to write: a Buffer or a string.\<close>

datatype content = Binary bytes | Text jsstring

record env =
  cwd :: jsstring
  existsSync :: "jsstring \<Rightarrow> bool"
  readdirSync :: "jsstring \<Rightarrow> js_error + jsstring list"
  mkdirSync :: "jsstring \<Rightarrow> js_error option"
  writeFileSync :: "jsstring \<Rightarrow> content \<Rightarrow> js_error option"
  answer :: "jsstring option"
  toLowerCase :: "jsstring \<Rightarrow> jsstring"
  fontStream :: "jsstring \<Rightarrow> glyph list \<Rightarrow> stream_event list"
  bufferFrom :: "jsstring \<Rightarrow> bytes"
  bufferToString :: "bytes \<Rightarrow> jsstring"
  svg2ttf :: "jsstring \<Rightarrow> js_error + bytes"
  ttf2woff2 :: "bytes \<Rightarrow> js_error + bytes"

text \<open>
  The lines a run prints, one constructor for each \<open>console.log\<close>, \<open>console.error\<close>
  and \<open>rl.question\<close> of the source:
  \<^item> \<open>DirectoryNotFound\<close>: line 165, \<open>La cartella /svg non e stata trovata\<close>;
  \<^item> \<open>NoInputFiles\<close>: line 171, \<open>Nessun file SVG trovato nella cartella /svg\<close>;
  \<^item> \<open>OverwriteQuestion\<close>: line 192, the prompt of \<open>rl.question\<close>;
  \<^item> \<open>UserAborted\<close>: line 196, \<open>Operazione annullata.\<close>;
  \<^item> \<open>Complete\<close>: line 139, \<open>Font generation complete! ...\<close>;
  \<^item> \<open>GenerationError\<close>: line 142, \<open>Error during font generation:\<close> with the error;
  \<^item> \<open>FontStreamError\<close>: line 149, \<open>Error in SVGIcons2SVGFontStream:\<close> with the error.
\<close>

datatype message =
    DirectoryNotFound
  | NoInputFiles
  | OverwriteQuestion
  | UserAborted
  | Complete
  | GenerationError js_error
  | FontStreamError js_error

text \<open>
  What a run does to the outside, in order. \<open>Uncaught\<close> is an exception that nothing
  catches: it rejects the promise of the main function.
\<close>

datatype effect =
    Console message
  | Mkdir jsstring
  | WriteFile jsstring content
  | RlClose
  | Uncaught js_error

record run =
  effects :: "effect list"
  exit_status :: nat

text \<open>
  \<open>readSVGFiles\<close>: the entries of the directory that end in \<open>.svg\<close>, each joined to
  the directory. \<open>readdirSync\<close> may throw.
\<close>

definition readSVGFiles :: "env \<Rightarrow> jsstring \<Rightarrow> js_error + jsstring list" where
  "readSVGFiles e directory =
     (case readdirSync e directory of
        Inl err \<Rightarrow> Inl err
      | Inr files \<Rightarrow>
          Inr (map (\<lambda>file. join [directory, file])
                 (filter (\<lambda>file. endsWith file (js ''.svg'')) files)))"

text \<open>
  \<open>saveFile\<close>: the write happens, or \<open>writeFileSync\<close> throws.
\<close>

definition saveFile :: "env \<Rightarrow> jsstring \<Rightarrow> content \<Rightarrow> js_error + effect" where
  "saveFile e filePath c =
     (case writeFileSync e filePath c of
        Some err \<Rightarrow> Inl err
      | None \<Rightarrow> Inr (WriteFile filePath c))"

text \<open>
  The \<open>data\<close> handler: the chunk is pushed to \<open>svgChunks\<close>, encoded first when it
  is not a Buffer.
\<close>

definition chunk_buffer :: "env \<Rightarrow> chunk \<Rightarrow> bytes" where
  "chunk_buffer e c = (case c of BufferChunk b \<Rightarrow> b | StringChunk s \<Rightarrow> bufferFrom e s)"

definition on_data :: "env \<Rightarrow> bytes list \<Rightarrow> chunk \<Rightarrow> bytes list" where
  "on_data e svgChunks c = svgChunks @ [chunk_buffer e c]"

text \<open>
  The \<open>finish\<close> handler, for the chunks pushed so far: the body of the \<open>try\<close>,
  statement by statement; every exception goes to the \<open>catch\<close>, which prints it and
  closes the prompt. Effects are listed in the order they happen.
\<close>

definition on_finish ::
  "env \<Rightarrow> bytes list \<Rightarrow> jsstring list \<Rightarrow> jsstring \<Rightarrow> jsstring \<Rightarrow> effect list" where
  "on_finish e svgChunks css fontName outputDir =
     (let svgFontBuffer = concat svgChunks in
      case svg2ttf e (bufferToString e svgFontBuffer) of
        Inl error \<Rightarrow> [Console (GenerationError error), RlClose]
      | Inr ttfBuffer \<Rightarrow>
          (case ttf2woff2 e ttfBuffer of
             Inl error \<Rightarrow> [Console (GenerationError error), RlClose]
           | Inr woff2 \<Rightarrow>
               (let woff2Path = join [outputDir, fontName @ js ''.woff2''] in
                case saveFile e woff2Path (Binary woff2) of
                  Inl error \<Rightarrow> [Console (GenerationError error), RlClose]
                | Inr written1 \<Rightarrow>
                    (let cssPath = join [outputDir, fontName @ js ''.css'']
                     in case saveFile e cssPath (Text (cssOutput fontName css)) of
                          Inl error \<Rightarrow> [written1, Console (GenerationError error), RlClose]
                        | Inr written2 \<Rightarrow>
                            [written1, written2, Console Complete, RlClose]))))"

text \<open>The \<open>error\<close> handler of the font stream: it prints the error and closes the prompt.\<close>

definition on_error :: "js_error \<Rightarrow> effect list" where
  "on_error err = [Console (FontStreamError err), RlClose]"

text \<open>A run that goes on after the effects \<open>es\<close>.\<close>

definition prepend_effects :: "effect list \<Rightarrow> run \<Rightarrow> run" where
  "prepend_effects es r = r\<lparr>effects := es @ effects r\<rparr>"

text \<open>
  The event loop after \<open>generateFont\<close> has returned: each event runs its handler, on
  the chunks pushed so far. An \<open>error\<close> event without a handler is an uncaught
  exception, which ends the run at once with status 1. When no event is left the run
  ends with status 0.
\<close>

fun handle_events ::
  "env \<Rightarrow> jsstring list \<Rightarrow> jsstring \<Rightarrow> jsstring \<Rightarrow> bytes list \<Rightarrow> stream_event list \<Rightarrow> run" where
  "handle_events e css fontName outputDir svgChunks [] = \<lparr>effects = [], exit_status = 0\<rparr>"
| "handle_events e css fontName outputDir svgChunks (Data c # events) =
     handle_events e css fontName outputDir (on_data e svgChunks c) events"
| "handle_events e css fontName outputDir svgChunks (StreamError err # events) =
     prepend_effects (on_error err)
       (handle_events e css fontName outputDir svgChunks events)"
| "handle_events e css fontName outputDir svgChunks (Finish # events) =
     prepend_effects (on_finish e svgChunks css fontName outputDir)
       (handle_events e css fontName outputDir svgChunks events)"
| "handle_events e css fontName outputDir svgChunks (ReadError err # events) =
     \<lparr>effects = [Uncaught err], exit_status = 1\<rparr>"

text \<open>
  \<open>generateFont\<close>: the glyphs are written to the font stream, the stream is ended and
  the handlers are registered, with \<open>svgChunks\<close> empty; the events follow.
\<close>

definition generateFont :: "env \<Rightarrow> jsstring list \<Rightarrow> jsstring \<Rightarrow> jsstring \<Rightarrow> run" where
  "generateFont e svgFiles fontName outputDir =
     handle_events e (cssContent svgFiles) fontName outputDir []
       (fontStream e fontName (glyphs svgFiles))"

text \<open>
  The code units \<open>trim\<close> removes at both ends: the white space and the line
  terminators of the language.
\<close>

definition is_space :: "jschar \<Rightarrow> bool" where
  "is_space c \<longleftrightarrow>
     c \<in> {0x09, 0x0A, 0x0B, 0x0C, 0x0D, 0x20, 0xA0, 0x1680, 0x2028, 0x2029, 0x202F, 0x205F,
          0x3000, 0xFEFF}
     \<or> (0x2000 \<le> c \<and> c \<le> 0x200A)"

definition trim :: "jsstring \<Rightarrow> jsstring" where
  "trim s = rev (dropWhile is_space (rev (dropWhile is_space s)))"

text \<open>
  \<open>answer.trim().toLowerCase() === 's'\<close>
\<close>

definition confirmed :: "env \<Rightarrow> jsstring \<Rightarrow> bool" where
  "confirmed e a \<longleftrightarrow> toLowerCase e (trim a) = js ''s''"

text \<open>
  The main function. \<open>process.exit(1)\<close> ends the run at once with status 1; an uncaught
  exception ends it with status 1 as well; a run that ends because nothing is left to
  do has status 0, the prompt being closed or never answered. The status is the one the
  process ends with, once it ends.
\<close>

definition main :: "env \<Rightarrow> run" where
  "main e =
     (let currentDir = cwd e;
          svgDirectory = join [currentDir, js ''svg''];
          outputDirectory = join [currentDir, js ''icons''];
          fontName = js ''icons''
      in if \<not> existsSync e svgDirectory then
           \<lparr>effects = [Console DirectoryNotFound], exit_status = 1\<rparr>
         else
           (case readSVGFiles e svgDirectory of
              Inl err \<Rightarrow> \<lparr>effects = [Uncaught err], exit_status = 1\<rparr>
            | Inr svgFiles \<Rightarrow>
                if length svgFiles = 0 then
                  \<lparr>effects = [Console NoInputFiles], exit_status = 1\<rparr>
                else if existsSync e outputDirectory then
                  (case answer e of
                     None \<Rightarrow> \<lparr>effects = [Console OverwriteQuestion], exit_status = 0\<rparr>
                   | Some a \<Rightarrow>
                       if confirmed e a then
                         prepend_effects [Console OverwriteQuestion]
                           (generateFont e svgFiles fontName outputDirectory)
                       else
                         \<lparr>effects = [Console OverwriteQuestion, Console UserAborted, RlClose],
                          exit_status = 0\<rparr>)
                else
                  (case mkdirSync e (join [currentDir]) of
                     Some err \<Rightarrow> \<lparr>effects = [Uncaught err], exit_status = 1\<rparr>
                   | None \<Rightarrow>
                       (case mkdirSync e outputDirectory of
                          Some err \<Rightarrow>
                            \<lparr>effects = [Mkdir (join [currentDir]), Uncaught err],
                             exit_status = 1\<rparr>
                        | None \<Rightarrow>
                            prepend_effects [Mkdir (join [currentDir]), Mkdir outputDirectory]
                              (generateFont e svgFiles fontName outputDirectory)))))"

section \<open>The change detector\<close>

text \<open>
  \<open>hash.update(string)\<close> hashes the UTF-8 encoding of the string. A code point below
  \<open>0x110000\<close> in UTF-8:
\<close>

definition utf8_code_point :: "nat \<Rightarrow> bytes" where
  "utf8_code_point cp =
     (if cp < 0x80 then [word_of_nat cp]
      else if cp < 0x800 then
        [word_of_nat (0xC0 + cp div 0x40), word_of_nat (0x80 + cp mod 0x40)]
      else if cp < 0x10000 then
        [word_of_nat (0xE0 + cp div 0x1000), word_of_nat (0x80 + cp div 0x40 mod 0x40),
         word_of_nat (0x80 + cp mod 0x40)]
      else
        [word_of_nat (0xF0 + cp div 0x40000), word_of_nat (0x80 + cp div 0x1000 mod 0x40),
         word_of_nat (0x80 + cp div 0x40 mod 0x40), word_of_nat (0x80 + cp mod 0x40)])"

definition is_high_surrogate :: "jschar \<Rightarrow> bool" where
  "is_high_surrogate c \<longleftrightarrow> 0xD800 \<le> c \<and> c \<le> 0xDBFF"

definition is_low_surrogate :: "jschar \<Rightarrow> bool" where
  "is_low_surrogate c \<longleftrightarrow> 0xDC00 \<le> c \<and> c \<le> 0xDFFF"

text \<open>
  A string in UTF-8: a surrogate pair is one code point, and a surrogate that stands
  alone is replaced by \<open>U+FFFD\<close>.
\<close>

fun utf8_encode :: "jsstring \<Rightarrow> bytes" where
  "utf8_encode [] = []"
| "utf8_encode [c] =
     (if is_high_surrogate c \<or> is_low_surrogate c then [0xEF, 0xBF, 0xBD]
      else utf8_code_point (unat c))"
| "utf8_encode (c # d # cs) =
     (if is_high_surrogate c \<and> is_low_surrogate d then
        utf8_code_point (0x10000 + (unat c - 0xD800) * 0x400 + (unat d - 0xDC00))
          @ utf8_encode cs
      else if is_high_surrogate c \<or> is_low_surrogate c then
        [0xEF, 0xBF, 0xBD] @ utf8_encode (d # cs)
      else utf8_code_point (unat c) @ utf8_encode (d # cs))"

text \<open>
  The hash object is the sequence of bytes given to it so far: \<open>update\<close> appends, and
  \<open>digest\<close> depends on nothing else.
\<close>

definition hash_update :: "bytes \<Rightarrow> jsstring \<Rightarrow> bytes" where
  "hash_update hash d = hash @ utf8_encode d"

text \<open>
  \<open>svgFiles.forEach(file => ...)\<close> in \<open>getSVGFilesHash\<close>: \<open>statSync\<close> gives the size
  of the file, or throws.
\<close>

fun hash_files :: "(jsstring \<Rightarrow> js_error + nat) \<Rightarrow> jsstring list \<Rightarrow> bytes \<Rightarrow> js_error + bytes" where
  "hash_files statSync [] hash = Inr hash"
| "hash_files statSync (file # files) hash =
     (case statSync file of
        Inl err \<Rightarrow> Inl err
      | Inr stats_size \<Rightarrow>
          hash_files statSync files
            (hash_update (hash_update hash file) (natToString 10 stats_size)))"

text \<open>
  \<open>getSVGFilesHash\<close>. The MD5 function of the platform, with its result written in
  hexadecimal, and the file sizes are taken as they are given.
\<close>

definition getSVGFilesHash ::
  "(bytes \<Rightarrow> jsstring) \<Rightarrow> (jsstring \<Rightarrow> js_error + nat) \<Rightarrow> jsstring list \<Rightarrow> js_error + jsstring" where
  "getSVGFilesHash md5_hex statSync svgFiles =
     (case hash_files statSync svgFiles (hash_update [] (natToString 10 (length svgFiles))) of
        Inl err \<Rightarrow> Inl err
      | Inr hash \<Rightarrow> Inr (md5_hex hash))"

section \<open>Example worlds\<close>

text \<open>
  A small world to run the program in: the working directory is \<open>/p\<close>, and the
  arguments say whether \<open>/p/svg\<close> exists, what it contains, whether \<open>/p/icons\<close>
  exists, what the user types, the events of the streams and what the first converter
  returns. Directories can be made and files written; the second converter returns its
  input; upper-case ASCII letters are the only ones the case conversion changes.
\<close>

definition ascii_lower :: "jsstring \<Rightarrow> jsstring" where
  "ascii_lower s = map (\<lambda>c. if 0x41 \<le> c \<and> c \<le> 0x5A then c + 0x20 else c) s"

definition example_env ::
  "bool \<Rightarrow> jsstring list \<Rightarrow> bool \<Rightarrow> jsstring option \<Rightarrow> stream_event list
     \<Rightarrow> (js_error + bytes) \<Rightarrow> env" where
  "example_env svg_exists entries icons_exists typed stream ttf =
     \<lparr>cwd = js ''/p'',
      existsSync =
        (\<lambda>p. (p = js ''/p/svg'' \<and> svg_exists) \<or> (p = js ''/p/icons'' \<and> icons_exists)),
      readdirSync = (\<lambda>p. if p = js ''/p/svg'' then Inr entries else Inl (js ''ENOENT'')),
      mkdirSync = (\<lambda>p. None),
      writeFileSync = (\<lambda>p c. None),
      answer = typed,
      toLowerCase = ascii_lower,
      fontStream = (\<lambda>fontName gs. stream),
      bufferFrom = map ucast,
      bufferToString = map ucast,
      svg2ttf = (\<lambda>document. ttf),
      ttf2woff2 = (\<lambda>ttfBuffer. Inr ttfBuffer)\<rparr>"

section \<open>Vocabulary of the proofs\<close>

text \<open>
  \<open>agree xs suffix\<close>: the code units \<open>xs\<close> read so far at the end of the last
  component are what the suffix has at its end, as far as both go.
\<close>

definition agree :: "jsstring \<Rightarrow> jsstring \<Rightarrow> bool" where
  "agree xs suffix \<longleftrightarrow>
     (if length xs \<le> length suffix then xs = drop (length suffix - length xs) suffix
      else drop (length xs - length suffix) xs = suffix)"

text \<open>
  The state of the suffix loop of \<open>basename\<close> after it has read the code units \<open>xs\<close>
  at the end of a path of length \<open>n\<close>, none of them a separator.
\<close>

definition scanned :: "nat \<Rightarrow> jsstring \<Rightarrow> jsstring \<Rightarrow> basename_state \<Rightarrow> bool" where
  "scanned n suffix xs st \<longleftrightarrow>
     start st = 0
     \<and> matchedSlash st = (xs = [])
     \<and> firstNonSlashEnd st = (if xs = [] then -1 else int n)
     \<and> (if agree xs suffix then
          (if length suffix \<le> length xs
           then extIdx st = -1 \<and> end_pos st = int n - int (length suffix)
           else extIdx st = int (length suffix) - 1 - int (length xs) \<and> end_pos st = -1)
        else extIdx st = -1 \<and> end_pos st = int n)"

definition all_dots :: "jsstring \<Rightarrow> bool" where
  "all_dots xs \<longleftrightarrow> (\<forall>c \<in> set xs. c = CHAR_DOT)"

text \<open>The files a run has written, in order.\<close>

fun written :: "effect list \<Rightarrow> (jsstring \<times> content) list" where
  "written [] = []"
| "written (WriteFile p c # es) = (p, c) # written es"
| "written (x # es) = written es"

text \<open>
  The two conversions at the head of the \<open>try\<close> block of the \<open>finish\<close> handler: the
  first exception of the two, or the font in its delivery format.
\<close>

definition transcode :: "env \<Rightarrow> bytes list \<Rightarrow> js_error + bytes" where
  "transcode e svgChunks =
     (case svg2ttf e (bufferToString e (concat svgChunks)) of
        Inl error \<Rightarrow> Inl error
      | Inr ttfBuffer \<Rightarrow> ttf2woff2 e ttfBuffer)"

text \<open>The chunks the \<open>data\<close> handler has pushed after a sequence of events.\<close>

fun collected :: "env \<Rightarrow> stream_event list \<Rightarrow> bytes list" where
  "collected e [] = []"
| "collected e (Data c # events) = chunk_buffer e c # collected e events"
| "collected e (x # events) = collected e events"

text \<open>What the \<open>error\<close> handler does for the \<open>error\<close> events of a sequence of events.\<close>

fun stream_errors :: "stream_event list \<Rightarrow> effect list" where
  "stream_errors [] = []"
| "stream_errors (StreamError err # events) = on_error err @ stream_errors events"
| "stream_errors (x # events) = stream_errors events"

text \<open>Events among which the font stream finishes at most once and no read stream fails.\<close>

fun plain :: "stream_event list \<Rightarrow> bool" where
  "plain [] = True"
| "plain (Finish # events) = False"
| "plain (ReadError err # events) = False"
| "plain (x # events) = plain events"

fun no_read_error :: "stream_event list \<Rightarrow> bool" where
  "no_read_error [] = True"
| "no_read_error (ReadError err # events) = False"
| "no_read_error (x # events) = no_read_error events"

text \<open>
  The run gets as far as \<open>generateFont\<close> with the files \<open>svgFiles\<close>: the input
  directory exists and holds them, and either the output directory exists and the
  question is answered with \<open>s\<close>, or the two directories can be made.
\<close>

definition reaches_generateFont :: "env \<Rightarrow> jsstring list \<Rightarrow> bool" where
  "reaches_generateFont e svgFiles \<longleftrightarrow>
     existsSync e (join [cwd e, js ''svg''])
     \<and> readSVGFiles e (join [cwd e, js ''svg'']) = Inr svgFiles
     \<and> svgFiles \<noteq> []
     \<and> (if existsSync e (join [cwd e, js ''icons''])
        then (case answer e of None \<Rightarrow> False | Some a \<Rightarrow> confirmed e a)
        else mkdirSync e (join [cwd e]) = None
          \<and> mkdirSync e (join [cwd e, js ''icons'']) = None)"

text \<open>What such a run has done when it calls \<open>generateFont\<close>.\<close>

definition before_generateFont :: "env \<Rightarrow> effect list" where
  "before_generateFont e =
     (if existsSync e (join [cwd e, js ''icons'']) then [Console OverwriteQuestion]
      else [Mkdir (join [cwd e]), Mkdir (join [cwd e, js ''icons''])])"

text \<open>\<open>s.split(c)\<close> for a single code unit \<open>c\<close>: the pieces between its occurrences.\<close>

fun split_on :: "jschar \<Rightarrow> jsstring \<Rightarrow> jsstring list" where
  "split_on c [] = [[]]"
| "split_on c (x # xs) =
     (if x = c then [] # split_on c xs
      else (case split_on c xs of [] \<Rightarrow> [[x]] | l # ls \<Rightarrow> (x # l) # ls))"

text \<open>The lines of a text.\<close>

definition split_lines :: "jsstring \<Rightarrow> jsstring list" where
  "split_lines s = split_on 0x0A s"

text \<open>The value of a hexadecimal digit \<open>0-9a-f\<close>, and of a string of them.\<close>

definition hex_digit_value :: "jschar \<Rightarrow> nat" where
  "hex_digit_value c =
     (if 0x30 \<le> c \<and> c \<le> 0x39 then unat c - 0x30
      else if 0x61 \<le> c \<and> c \<le> 0x66 then unat c - 0x61 + 10
      else 0)"

definition hex_value :: "jsstring \<Rightarrow> nat" where
  "hex_value s = foldl (\<lambda>a c. 16 * a + hex_digit_value c) 0 s"

definition is_hex_digit :: "jschar \<Rightarrow> bool" where
  "is_hex_digit c \<longleftrightarrow> (0x30 \<le> c \<and> c \<le> 0x39) \<or> (0x61 \<le> c \<and> c \<le> 0x66)"

text \<open>The bytes \<open>getSVGFilesHash\<close> has given to the hash object when it asks for the digest.\<close>

definition hashed_bytes :: "(jsstring \<Rightarrow> js_error + nat) \<Rightarrow> jsstring list \<Rightarrow> js_error + bytes" where
  "hashed_bytes statSync svgFiles =
     hash_files statSync svgFiles (hash_update [] (natToString 10 (length svgFiles)))"

text \<open>The \<open>{path, size}\<close> pairs of a list of files: \<open>None\<close> when a size cannot be read.\<close>

fun sized :: "(jsstring \<Rightarrow> js_error + nat) \<Rightarrow> jsstring list \<Rightarrow> (jsstring \<times> nat) list option" where
  "sized statSync [] = Some []"
| "sized statSync (file # files) =
     (case statSync file of
        Inl err \<Rightarrow> None
      | Inr stats_size \<Rightarrow>
          (case sized statSync files of
             None \<Rightarrow> None
           | Some pairs \<Rightarrow> Some ((file, stats_size) # pairs)))"

text \<open>What one pair adds to the hash, and what a list of pairs makes of an empty hash.\<close>

definition pair_bytes :: "jsstring \<times> nat \<Rightarrow> bytes" where
  "pair_bytes pair = utf8_encode (fst pair) @ utf8_encode (natToString 10 (snd pair))"

definition pairs_bytes :: "(jsstring \<times> nat) list \<Rightarrow> bytes" where
  "pairs_bytes pairs =
     utf8_encode (natToString 10 (length pairs)) @ concat (map pair_bytes pairs)"

text \<open>Decimal digits, as code units and as bytes, and the value of a string of them.\<close>

definition is_digit :: "jschar \<Rightarrow> bool" where
  "is_digit c \<longleftrightarrow> 0x30 \<le> c \<and> c \<le> 0x39"

definition is_digit_byte :: "8 word \<Rightarrow> bool" where
  "is_digit_byte b \<longleftrightarrow> 0x30 \<le> b \<and> b \<le> 0x39"

definition dec_value :: "bytes \<Rightarrow> nat" where
  "dec_value s = foldl (\<lambda>a b. 10 * a + (unat b - 0x30)) 0 s"

text \<open>A sequence of bytes at which a run of decimal digits ends.\<close>

definition stops :: "bytes \<Rightarrow> bool" where
  "stops t \<longleftrightarrow> t = [] \<or> \<not> is_digit_byte (hd t)"

text \<open>A path that is not empty and does not begin with a decimal digit.\<close>

definition no_leading_digit :: "jsstring \<Rightarrow> bool" where
  "no_leading_digit p \<longleftrightarrow> p \<noteq> [] \<and> \<not> is_digit (hd p)"

text \<open>Worlds for the change detector: the sizes of the files in each.\<close>

definition stat_example_1 :: "jsstring \<Rightarrow> js_error + nat" where
  "stat_example_1 p =
     (if p = js ''a.svg'' then Inr 5 else if p = js ''1.svg'' then Inr 17
      else Inl (js ''ENOENT''))"

definition stat_example_2 :: "jsstring \<Rightarrow> js_error + nat" where
  "stat_example_2 p =
     (if p = js ''a.svg'' then Inr 51 else if p = js ''.svg'' then Inr 17
      else Inl (js ''ENOENT''))"

definition stat_example_3 :: "jsstring \<Rightarrow> js_error + nat" where
  "stat_example_3 p =
     (if p = js ''/p/svg/a.svg'' then Inr 5 else if p = js ''/p/svg/b.svg'' then Inr 7
      else Inl (js ''ENOENT''))"

definition stat_example_4 :: "jsstring \<Rightarrow> js_error + nat" where
  "stat_example_4 p =
     (if p = js ''/p/svg/a.svg'' then Inr 6 else Inl (js ''ENOENT''))"

text \<open>
  A name as a directory listing gives it: not empty, without a separator, and neither
  \<open>.\<close> nor \<open>..\<close>.
\<close>

definition entry_name :: "jsstring \<Rightarrow> bool" where
  "entry_name file \<longleftrightarrow>
     file \<noteq> [] \<and> CHAR_FORWARD_SLASH \<notin> set file
     \<and> file \<noteq> [CHAR_DOT] \<and> file \<noteq> [CHAR_DOT, CHAR_DOT]"

section \<open>Properties of the glyph names\<close>

lemma js_hyphen: "js ''-'' = [0x2D]"
  by (simp add: js_def)

lemma sanitizeGlyphName_map:
  "sanitizeGlyphName s = map (\<lambda>c. if is_alnum c then c else 0x2D) s"
  by (induction s) (simp_all add: sanitizeGlyphName_def replace_all_def js_hyphen)

lemma is_alnum_hyphen: "\<not> is_alnum 0x2D"
  by (simp add: is_alnum_def)

text \<open>
  C1. The sanitized name has the length of the input; at every position an alphanumeric
  code unit is kept and any other is replaced by a hyphen (so hyphens are not collapsed
  and case is not changed); the result contains only \<open>[A-Za-z0-9-]\<close>.
\<close>

theorem sanitizeGlyphName_pointwise:
  "length (sanitizeGlyphName s) = length s
   \<and> (\<forall>i < length s. sanitizeGlyphName s ! i = (if is_alnum (s ! i) then s ! i else 0x2D))
   \<and> (\<forall>c \<in> set (sanitizeGlyphName s). is_alnum c \<or> c = 0x2D)"
  by (auto simp add: sanitizeGlyphName_map)

theorem sanitizeGlyphName_pointwise_witness:
  "length (sanitizeGlyphName (js ''My  icon_2'')) = 10
   \<and> sanitizeGlyphName (js ''My  icon_2'') ! 0 = 0x4D
   \<and> sanitizeGlyphName (js ''My  icon_2'') ! 2 = 0x2D
   \<and> sanitizeGlyphName (js ''My  icon_2'') ! 3 = 0x2D
   \<and> 0x5F \<notin> set (sanitizeGlyphName (js ''My  icon_2''))"
proof -
  let ?s = "js ''My  icon_2''"
  have len: "length ?s = 10"
    by (simp add: js_def)
  have at0: "?s ! 0 = 0x4D" and at2: "?s ! 2 = 0x20" and at3: "?s ! 3 = 0x20"
    by (simp_all add: js_def)
  have alnum: "is_alnum 0x4D" "\<not> is_alnum 0x20" "\<not> is_alnum 0x5F"
    by (simp_all add: is_alnum_def)
  from sanitizeGlyphName_pointwise [of ?s]
  have l: "length (sanitizeGlyphName ?s) = length ?s"
    and p: "\<And>i. i < length ?s \<Longrightarrow>
          sanitizeGlyphName ?s ! i = (if is_alnum (?s ! i) then ?s ! i else 0x2D)"
    and m: "\<And>c. c \<in> set (sanitizeGlyphName ?s) \<Longrightarrow> is_alnum c \<or> c = 0x2D"
    by blast+
  have "sanitizeGlyphName ?s ! 0 = 0x4D"
    using p [of 0] len at0 alnum by simp
  moreover have "sanitizeGlyphName ?s ! 2 = 0x2D"
    using p [of 2] len at2 alnum by simp
  moreover have "sanitizeGlyphName ?s ! 3 = 0x2D"
    using p [of 3] len at3 alnum by simp
  moreover have "0x5F \<notin> set (sanitizeGlyphName ?s)"
    using m [of "0x5F"] alnum by auto
  ultimately show ?thesis
    using l len by simp
qed

text \<open>
  C10. Sanitizing is idempotent: a sanitized name passes through unchanged.
\<close>

theorem sanitizeGlyphName_idempotent:
  "sanitizeGlyphName (sanitizeGlyphName s) = sanitizeGlyphName s"
  by (simp add: sanitizeGlyphName_map is_alnum_hyphen)

section \<open>Properties of the code points\<close>

lemma codePoint_mod: "codePoint index = Some ((0xe000 + index) mod 0x10000)"
proof -
  have "unat (word_of_nat (0xe000 + index) :: jschar) = (0xe000 + index) mod 0x10000"
    by (simp only: unat_of_nat) simp
  then show ?thesis
    by (simp only: codePoint_def charCodeAt_def glyphUnicode_def fromCharCode_def) simp
qed




section \<open>Properties of the path module\<close>

subsection \<open>The suffix loop of basename\<close>

lemma agree_Cons:
  assumes "suffix \<noteq> []"
  shows "agree (c # xs) suffix \<longleftrightarrow>
     agree xs suffix \<and> (length xs < length suffix \<longrightarrow> c = suffix ! (length suffix - 1 - length xs))"
proof (cases "length xs < length suffix")
  case True
  then have d: "drop (length suffix - Suc (length xs)) suffix
      = suffix ! (length suffix - 1 - length xs) # drop (length suffix - length xs) suffix"
    by (metis Cons_nth_drop_Suc Suc_diff_Suc diff_Suc_eq_diff_pred diff_less zero_less_Suc length_greater_0_conv assms)
  from True show ?thesis
    by (auto simp add: agree_def d)
next
  case False
  then show ?thesis
    by (auto simp add: agree_def Suc_diff_le)
qed


lemma basename_suffix_loop_scan:
  assumes suffix: "suffix \<noteq> []"
    and entry: "entry \<noteq> []" "CHAR_FORWARD_SLASH \<notin> set entry"
    and r: "r \<le> length entry"
    and inv: "scanned (length (pre @ CHAR_FORWARD_SLASH # entry)) suffix (drop r entry) st"
  shows "\<exists>st'. basename_suffix_loop (pre @ CHAR_FORWARD_SLASH # entry) suffix
                 (Suc (length pre) + r) st = st'\<lparr>start := int (length pre) + 1\<rparr>
             \<and> scanned (length (pre @ CHAR_FORWARD_SLASH # entry)) suffix entry st'"
  using r inv
proof (induction r arbitrary: st)
  case 0
  then have "\<not> matchedSlash st"
    using entry by (simp add: scanned_def)
  then have "basename_suffix_loop (pre @ CHAR_FORWARD_SLASH # entry) suffix
      (Suc (length pre) + 0) st = st\<lparr>start := int (length pre) + 1\<rparr>"
    by simp
  with 0 show ?case
    by auto
next
  case (Suc r)
  let ?path = "pre @ CHAR_FORWARD_SLASH # entry"
  let ?n = "length ?path"
  let ?xs = "drop (Suc r) entry"
  let ?c = "entry ! r"
  from Suc.prems have r: "r < length entry"
    by simp
  then have c: "?path ! (Suc (length pre) + r) = ?c"
    by (simp add: nth_append)
  from r entry have noslash: "?c \<noteq> CHAR_FORWARD_SLASH"
    by (metis nth_mem)
  from r have xs: "drop r entry = ?c # ?xs"
    by (simp add: Cons_nth_drop_Suc)
  have len: "length ?xs = length entry - Suc r"
    by simp
  define st1 where "st1 = (if firstNonSlashEnd st = -1
      then st\<lparr>matchedSlash := False, firstNonSlashEnd := int (Suc (length pre) + r) + 1\<rparr>
      else st)"
  define st2 where "st2 = (if extIdx st1 \<ge> 0 then
        (if ?c = suffix ! nat (extIdx st1) then
           (if extIdx st1 - 1 = -1
            then st1\<lparr>extIdx := extIdx st1 - 1, end_pos := int (Suc (length pre) + r)\<rparr>
            else st1\<lparr>extIdx := extIdx st1 - 1\<rparr>)
         else st1\<lparr>extIdx := -1, end_pos := firstNonSlashEnd st1\<rparr>)
      else st1)"
  have step: "basename_suffix_loop ?path suffix (Suc (length pre) + Suc r) st
      = basename_suffix_loop ?path suffix (Suc (length pre) + r) st2"
    using c noslash by (simp add: st1_def st2_def Let_def)
  have n: "int ?n = int (Suc (length pre) + r) + 1 + int (length ?xs)"
    using r by simp
  have k: "0 < length suffix"
    using suffix by simp
  have idx: "length ?xs < length suffix \<Longrightarrow>
      nat (int (length suffix) - 1 - int (length ?xs)) = length suffix - 1 - length ?xs"
    by linarith
  have "scanned ?n suffix (?c # ?xs) st2"
  proof (cases "?xs = []")
    case True
    have "nat (int (length suffix) - 1) = length suffix - Suc 0"
      by simp
    moreover have "Suc 0 \<le> length suffix"
      using suffix by (cases suffix) simp_all
    ultimately show ?thesis
      using True Suc.prems(2) n k suffix
      unfolding scanned_def st2_def st1_def agree_Cons [OF suffix]
      by (auto simp add: agree_def le_Suc_eq)
  next
    case False
    from False Suc.prems(2) have base: "start st = 0" "\<not> matchedSlash st"
      "firstNonSlashEnd st = int ?n"
      by (simp_all add: scanned_def)
    then have st1: "st1 = st"
      by (simp add: st1_def)
    show ?thesis
    proof (cases "agree ?xs suffix")
      case nagree: False
      with Suc.prems(2) have "extIdx st = -1" "end_pos st = int ?n"
        by (simp_all add: scanned_def)
      moreover from this have "st2 = st"
        by (simp add: st2_def st1)
      ultimately show ?thesis
        using base nagree by (simp add: scanned_def agree_Cons [OF suffix])
    next
      case agree: True
      show ?thesis
      proof (cases "length suffix \<le> length ?xs")
        case long: True
        with agree Suc.prems(2)
        have "extIdx st = -1" "end_pos st = int ?n - int (length suffix)"
          by (simp_all add: scanned_def)
        moreover from this have "st2 = st"
          by (simp add: st2_def st1)
        ultimately show ?thesis
          using base agree long by (simp add: scanned_def agree_Cons [OF suffix])
      next
        case short: False
        with agree Suc.prems(2)
        have fields: "extIdx st = int (length suffix) - 1 - int (length ?xs)" "end_pos st = -1"
          by (simp_all add: scanned_def)
        from short have lt: "length ?xs < length suffix"
          by simp
        have nonneg: "0 \<le> extIdx st"
          using fields lt by simp
        have at: "nat (extIdx st) = length suffix - 1 - length ?xs"
          using fields idx [OF lt] by simp
        show ?thesis
        proof (cases "?c = suffix ! (length suffix - 1 - length ?xs)")
          case mismatch: False
          then have "st2 = st\<lparr>extIdx := -1, end_pos := int ?n\<rparr>"
            using nonneg at base by (simp add: st2_def st1)
          moreover have "\<not> agree (?c # ?xs) suffix"
            using mismatch lt by (simp add: agree_Cons [OF suffix])
          ultimately show ?thesis
            using base by (simp add: scanned_def)
        next
          case match: True
          then have ag: "agree (?c # ?xs) suffix"
            using agree by (simp add: agree_Cons [OF suffix])
          show ?thesis
          proof (cases "Suc (length ?xs) = length suffix")
            case True
            then have "extIdx st - 1 = -1"
              using fields by linarith
            then have "st2 = st\<lparr>extIdx := -1, end_pos := int (Suc (length pre) + r)\<rparr>"
              using match nonneg at by (simp add: st2_def st1)
            moreover have "int (Suc (length pre) + r) = int ?n - int (length suffix)"
              using n True by linarith
            moreover have "length suffix \<le> length (?c # ?xs)"
              using True by simp
            ultimately show ?thesis
              using base ag by (simp add: scanned_def)
          next
            case False
            then have "extIdx st - 1 \<noteq> -1"
              using fields by linarith
            then have "st2 = st\<lparr>extIdx := extIdx st - 1\<rparr>"
              using match nonneg at by (simp add: st2_def st1)
            moreover have "\<not> length suffix \<le> length (?c # ?xs)"
              using False lt by simp
            moreover have "extIdx st - 1 = int (length suffix) - 1 - int (length (?c # ?xs))"
              using fields by simp
            ultimately show ?thesis
              using base ag fields by (simp add: scanned_def)
          qed
        qed
      qed
    qed
  qed
  then have "scanned ?n suffix (drop r entry) st2"
    by (simp only: xs)
  from Suc.IH [OF _ this] r step show ?case
    by simp
qed


lemma endsWith_drop:
  "endsWith s t \<longleftrightarrow> length t \<le> length s \<and> drop (length s - length t) s = t"
  by (auto simp add: endsWith_def slice_def)

lemma basename_of_entry:
  assumes suffix: "suffix \<noteq> []"
    and entry: "entry \<noteq> []" "CHAR_FORWARD_SLASH \<notin> set entry"
    and len: "length suffix \<le> length entry"
  shows "basename (pre @ CHAR_FORWARD_SLASH # entry) suffix =
     (if endsWith entry suffix \<and> entry \<noteq> suffix
      then take (length entry - length suffix) entry else entry)"
proof -
  let ?path = "pre @ CHAR_FORWARD_SLASH # entry"
  let ?n = "length ?path"
  let ?st0 = "\<lparr>start = 0, end_pos = -1, matchedSlash = True,
               extIdx = int (length suffix) - 1, firstNonSlashEnd = -1\<rparr>"
  have "scanned ?n suffix (drop (length entry) entry) ?st0"
    using suffix by (simp add: scanned_def agree_def)
  from basename_suffix_loop_scan [OF suffix entry order_refl this]
  obtain st' where loop: "basename_suffix_loop ?path suffix (Suc (length pre) + length entry) ?st0
        = st'\<lparr>start := int (length pre) + 1\<rparr>"
    and st': "scanned ?n suffix entry st'"
    by blast
  have n: "?n = Suc (length pre) + length entry"
    by simp
  have guard: "length suffix > 0 \<and> length suffix \<le> ?n" "suffix \<noteq> ?path"
    using suffix len by auto
  define endp where "endp = (if int (length pre) + 1 = end_pos st' then firstNonSlashEnd st'
       else if end_pos st' = -1 then int ?n else end_pos st')"
  have result: "basename ?path suffix = slice ?path (Suc (length pre)) (nat endp)"
    unfolding basename_def Let_def endp_def using guard loop
    by (simp only: n if_True if_False) (simp add: nat_add_distrib)
  have whole: "slice ?path (Suc (length pre)) ?n = entry"
    by (simp add: slice_def)
  have agree: "agree entry suffix \<longleftrightarrow> endsWith entry suffix"
    using len by (auto simp add: agree_def endsWith_drop)
  show ?thesis
  proof (cases "endsWith entry suffix")
    case False
    with st' agree entry have "end_pos st' = int ?n" "firstNonSlashEnd st' = int ?n"
      by (simp_all add: scanned_def)
    then have "endp = int ?n"
      by (simp add: endp_def)
    with result whole False show ?thesis
      by (simp only: nat_int if_False simp_thms)
  next
    case True
    with st' agree entry len
    have e: "end_pos st' = int ?n - int (length suffix)" "firstNonSlashEnd st' = int ?n"
      by (simp_all add: scanned_def)
    show ?thesis
    proof (cases "entry = suffix")
      case True
      then have "endp = int ?n"
        using e by (simp add: endp_def)
      with result whole True show ?thesis
        by (simp only: nat_int if_False simp_thms)
    next
      case False
      have "length suffix \<noteq> length entry"
      proof
        assume "length suffix = length entry"
        with True have "entry = suffix"
          by (simp add: endsWith_drop)
        with False show False
          by simp
      qed
      with len have "length suffix < length entry"
        by simp
      then have "endp = int ?n - int (length suffix)" "nat endp = ?n - length suffix"
        using e by (auto simp add: endp_def)
      moreover have "slice ?path (Suc (length pre)) (?n - length suffix)
          = take (length entry - length suffix) entry"
        using len by (simp add: slice_def)
      ultimately show ?thesis
        using result True False by simp
    qed
  qed
qed

subsection \<open>The loop of normalizeString\<close>

lemma normalize_body_separator:
  assumes "code st = CHAR_FORWARD_SLASH"
  shows "lastSlash (normalize_body path a i st) = int i
     \<and> dots (normalize_body path a i st) = 0
     \<and> code (normalize_body path a i st) = CHAR_FORWARD_SLASH"
  using assms by (simp add: normalize_body_def Let_def)

lemma normalize_body_inner:
  assumes "code st \<noteq> CHAR_FORWARD_SLASH"
  shows "normalize_body path a i st =
     st\<lparr>dots := (if code st = CHAR_DOT \<and> dots st \<noteq> -1 then dots st + 1 else -1)\<rparr>"
  using assms by (simp add: normalize_body_def)

lemma normalize_loop_to_separator:
  assumes "i < i0" "i0 \<le> length path" "path ! (i0 - 1) = CHAR_FORWARD_SLASH"
  shows "\<exists>st'. normalize_loop path a i st = normalize_loop path a i0 st'
     \<and> lastSlash st' = int i0 - 1 \<and> dots st' = 0 \<and> code st' = CHAR_FORWARD_SLASH"
  using assms
proof (induction "i0 - i" arbitrary: i st)
  case 0
  then show ?case by simp
next
  case (Suc d)
  let ?st = "normalize_body path a i (st\<lparr>code := path ! i\<rparr>)"
  from Suc.prems have unfold: "normalize_loop path a i st = normalize_loop path a (i + 1) ?st"
    by (subst normalize_loop.simps) simp
  show ?case
  proof (cases "i + 1 = i0")
    case True
    with Suc.prems have "code (st\<lparr>code := path ! i\<rparr>) = CHAR_FORWARD_SLASH"
      by auto
    from normalize_body_separator [OF this, of path a i] True unfold show ?thesis
      by (intro exI [of _ ?st]) auto
  next
    case False
    with Suc.prems Suc.hyps have "d = i0 - (i + 1)" "i + 1 < i0"
      by simp_all
    from Suc.hyps(1) [OF this Suc.prems(2,3), of ?st] unfold show ?thesis
      by simp
  qed
qed

lemma normalize_loop_last_segment:
  assumes entry: "entry \<noteq> []" "CHAR_FORWARD_SLASH \<notin> set entry"
      "entry \<noteq> [CHAR_DOT]" "entry \<noteq> [CHAR_DOT, CHAR_DOT]"
    and k: "k \<le> length entry"
    and st: "lastSlash st = int (length pre) - 1"
      "dots st = (if all_dots (take k entry) then int k else -1)"
      "0 < k \<longrightarrow> code st = entry ! (k - 1)"
  shows "normalize_loop (pre @ entry) a (length pre + k) st =
     (if length (res st) > 0 then res st @ CHAR_FORWARD_SLASH # entry else entry)"
  using k st
proof (induction "length entry - k" arbitrary: k st)
  case 0
  then have k: "k = length entry"
    by simp
  let ?path = "pre @ entry"
  let ?st = "normalize_body ?path a (length ?path) (st\<lparr>code := CHAR_FORWARD_SLASH\<rparr>)"
  from k entry 0 have "code st \<noteq> CHAR_FORWARD_SLASH"
    by (metis length_greater_0_conv nth_mem diff_less zero_less_one)
  then have unfold: "normalize_loop ?path a (length pre + k) st
      = normalize_loop ?path a (length ?path + 1) ?st"
    using k by (subst normalize_loop.simps) simp
  have fin: "normalize_loop ?path a (length ?path + 1) ?st = res ?st"
    by (subst normalize_loop.simps) simp
  have d1: "dots st \<noteq> 1"
  proof
    assume "dots st = 1"
    with 0 k have "length entry = 1" "all_dots entry"
      by (auto split: if_splits)
    then have "entry = [CHAR_DOT]"
      by (cases entry) (auto simp add: all_dots_def)
    with entry show False by simp
  qed
  have d2: "dots st \<noteq> 2"
  proof
    assume "dots st = 2"
    with 0 k have "length entry = 2" "all_dots entry"
      by (auto split: if_splits)
    then have "entry = [CHAR_DOT, CHAR_DOT]"
      by (cases entry; cases "tl entry") (auto simp add: all_dots_def)
    with entry show False by simp
  qed
  have "0 < length entry"
    using entry by simp
  then have ls: "lastSlash st \<noteq> int (length ?path) - 1"
    using 0(3) by simp
  have "res ?st = (if length (res st) > 0 then res st @ CHAR_FORWARD_SLASH # entry else entry)"
    using d1 d2 ls 0(3) by (simp add: normalize_body_def slice_def)
  with unfold fin show ?case
    by simp
next
  case (Suc d)
  let ?path = "pre @ entry"
  let ?c = "entry ! k"
  let ?st = "normalize_body ?path a (length pre + k) (st\<lparr>code := ?c\<rparr>)"
  from Suc have k: "k < length entry"
    by simp
  then have c: "?path ! (length pre + k) = ?c"
    by (simp add: nth_append)
  from k entry(2) have noslash: "?c \<noteq> CHAR_FORWARD_SLASH"
    by (metis nth_mem)
  from k have unfold: "normalize_loop ?path a (length pre + k) st
      = normalize_loop ?path a (length pre + Suc k) ?st"
    by (subst normalize_loop.simps) (simp add: c)
  have tk: "take (Suc k) entry = take k entry @ [?c]"
    using k by (simp add: take_Suc_conv_app_nth)
  have st': "?st = st\<lparr>code := ?c,
      dots := (if ?c = CHAR_DOT \<and> dots st \<noteq> -1 then dots st + 1 else -1)\<rparr>"
    using noslash by (simp add: normalize_body_inner)
  have "dots ?st = (if all_dots (take (Suc k) entry) then int (Suc k) else -1)"
    unfolding st' using Suc.prems(3) by (auto simp add: tk all_dots_def)
  moreover have "lastSlash ?st = int (length pre) - 1" "code ?st = entry ! (Suc k - 1)"
    "res ?st = res st"
    unfolding st' using Suc.prems(2) by simp_all
  moreover have "d = length entry - Suc k" "Suc k \<le> length entry"
    using Suc.hyps(2) k by simp_all
  ultimately show ?case
    using Suc.hyps(1) [of "Suc k" ?st] unfold by simp
qed

section \<open>Properties of a run\<close>

subsection \<open>The handlers\<close>

lemma readSVGFiles_none:
  assumes "readdirSync e directory = Inr files"
    and "\<forall>file \<in> set files. \<not> endsWith file (js ''.svg'')"
  shows "readSVGFiles e directory = Inr []"
  using assms by (simp add: readSVGFiles_def filter_empty_conv)

lemma readSVGFiles_some:
  assumes "readdirSync e directory = Inr files"
    and "\<exists>file \<in> set files. endsWith file (js ''.svg'')"
  shows "\<exists>svgFiles. readSVGFiles e directory = Inr svgFiles \<and> svgFiles \<noteq> []"
  using assms by (auto simp add: readSVGFiles_def filter_empty_conv)

lemma prepend_effects_simps [simp]:
  "effects (prepend_effects es r) = es @ effects r"
  "exit_status (prepend_effects es r) = exit_status r"
  by (simp_all add: prepend_effects_def)

lemma prepend_effects_run:
  "prepend_effects es \<lparr>effects = fs, exit_status = s\<rparr> = \<lparr>effects = es @ fs, exit_status = s\<rparr>"
  by (simp add: prepend_effects_def)

lemma prepend_effects_twice:
  "prepend_effects es (prepend_effects fs r) = prepend_effects (es @ fs) r"
  by (simp add: prepend_effects_def)

lemma on_finish_cases:
  "(\<exists>err. on_finish e svgChunks css fn od = [Console (GenerationError err), RlClose])
   \<or> (\<exists>err w. on_finish e svgChunks css fn od =
         [WriteFile (join [od, fn @ js ''.woff2'']) (Binary w),
          Console (GenerationError err), RlClose])
   \<or> (\<exists>w. on_finish e svgChunks css fn od =
         [WriteFile (join [od, fn @ js ''.woff2'']) (Binary w),
          WriteFile (join [od, fn @ js ''.css'']) (Text (cssOutput fn css)),
          Console Complete, RlClose])"
  by (simp add: on_finish_def saveFile_def Let_def split: sum.split option.split)

lemma on_finish_transcode_error:
  assumes "transcode e svgChunks = Inl err"
  shows "on_finish e svgChunks css fn od = [Console (GenerationError err), RlClose]"
  using assms by (auto simp add: on_finish_def transcode_def Let_def split: sum.splits)

lemma on_finish_complete:
  assumes "transcode e svgChunks = Inr woff2"
    and "writeFileSync e (join [od, fn @ js ''.woff2'']) (Binary woff2) = None"
    and "writeFileSync e (join [od, fn @ js ''.css'']) (Text (cssOutput fn css)) = None"
  shows "on_finish e svgChunks css fn od =
         [WriteFile (join [od, fn @ js ''.woff2'']) (Binary woff2),
          WriteFile (join [od, fn @ js ''.css'']) (Text (cssOutput fn css)),
          Console Complete, RlClose]"
  using assms
  by (auto simp add: on_finish_def transcode_def saveFile_def Let_def split: sum.splits)

lemma on_finish_messages:
  "Console DirectoryNotFound \<notin> set (on_finish e svgChunks css fn od)"
  "Console NoInputFiles \<notin> set (on_finish e svgChunks css fn od)"
  "Uncaught err \<notin> set (on_finish e svgChunks css fn od)"
  "Mkdir p \<notin> set (on_finish e svgChunks css fn od)"
  using on_finish_cases [of e svgChunks css fn od] by auto

lemma on_finish_written:
  assumes "WriteFile p c \<in> set (on_finish e svgChunks css fn od)"
  shows "(\<exists>w. p = join [od, fn @ js ''.woff2''] \<and> c = Binary w)
    \<or> (p = join [od, fn @ js ''.css''] \<and> c = Text (cssOutput fn css))"
  using on_finish_cases [of e svgChunks css fn od] assms by auto

lemma on_finish_complete_only:
  assumes "Console Complete \<in> set (on_finish e svgChunks css fn od)"
  shows "\<exists>w. on_finish e svgChunks css fn od =
         [WriteFile (join [od, fn @ js ''.woff2'']) (Binary w),
          WriteFile (join [od, fn @ js ''.css'']) (Text (cssOutput fn css)),
          Console Complete, RlClose]"
  using on_finish_cases [of e svgChunks css fn od] assms by auto

lemma on_finish_generation_error:
  assumes "Console (GenerationError err) \<in> set (on_finish e svgChunks css fn od)"
  shows "Console Complete \<notin> set (on_finish e svgChunks css fn od)
    \<and> (\<forall>p t. WriteFile p (Text t) \<notin> set (on_finish e svgChunks css fn od))"
  using on_finish_cases [of e svgChunks css fn od] assms by auto

subsection \<open>The events\<close>

lemma handle_events_status:
  "exit_status (handle_events e css fn od svgChunks events) = 1
   \<or> exit_status (handle_events e css fn od svgChunks events) = 0"
  by (induction e css fn od svgChunks events rule: handle_events.induct) simp_all

lemma handle_events_uncaught:
  "exit_status (handle_events e css fn od svgChunks events) = 1
   \<longleftrightarrow> (\<exists>err. Uncaught err \<in> set (effects (handle_events e css fn od svgChunks events)))"
  by (induction e css fn od svgChunks events rule: handle_events.induct)
    (simp_all add: on_finish_messages on_error_def)

lemma handle_events_messages:
  "Console DirectoryNotFound \<notin> set (effects (handle_events e css fn od svgChunks events))"
  "Console NoInputFiles \<notin> set (effects (handle_events e css fn od svgChunks events))"
  "Mkdir p \<notin> set (effects (handle_events e css fn od svgChunks events))"
  by (induction e css fn od svgChunks events rule: handle_events.induct)
    (simp_all add: on_finish_messages on_error_def)

lemma handle_events_written:
  assumes "WriteFile p c \<in> set (effects (handle_events e css fn od svgChunks events))"
  shows "(\<exists>w. p = join [od, fn @ js ''.woff2''] \<and> c = Binary w)
    \<or> (p = join [od, fn @ js ''.css''] \<and> c = Text (cssOutput fn css))"
  using assms
  by (induction e css fn od svgChunks events rule: handle_events.induct)
    (auto simp add: on_error_def dest: on_finish_written)

lemma handle_events_complete:
  assumes "Console Complete \<in> set (effects (handle_events e css fn od svgChunks events))"
  shows "\<exists>a b w. effects (handle_events e css fn od svgChunks events) =
         a @ [WriteFile (join [od, fn @ js ''.woff2'']) (Binary w),
              WriteFile (join [od, fn @ js ''.css'']) (Text (cssOutput fn css)),
              Console Complete, RlClose] @ b"
  using assms
proof (induction e css fn od svgChunks events rule: handle_events.induct)
  case (3 e css fn od svgChunks err events)
  then obtain a b w where "effects (handle_events e css fn od svgChunks events) =
         a @ [WriteFile (join [od, fn @ js ''.woff2'']) (Binary w),
              WriteFile (join [od, fn @ js ''.css'']) (Text (cssOutput fn css)),
              Console Complete, RlClose] @ b"
    by (auto simp add: on_error_def)
  then have "effects (handle_events e css fn od svgChunks (StreamError err # events)) =
         (on_error err @ a) @ [WriteFile (join [od, fn @ js ''.woff2'']) (Binary w),
              WriteFile (join [od, fn @ js ''.css'']) (Text (cssOutput fn css)),
              Console Complete, RlClose] @ b"
    by simp
  then show ?case
    by blast
next
  case (4 e css fn od svgChunks events)
  let ?f = "on_finish e svgChunks css fn od"
  let ?h = "handle_events e css fn od svgChunks events"
  show ?case
  proof (cases "Console Complete \<in> set ?f")
    case True
    from on_finish_complete_only [OF this] obtain w where "?f =
         [WriteFile (join [od, fn @ js ''.woff2'']) (Binary w),
          WriteFile (join [od, fn @ js ''.css'']) (Text (cssOutput fn css)),
          Console Complete, RlClose]"
      by blast
    then have "effects (handle_events e css fn od svgChunks (Finish # events)) =
         [] @ [WriteFile (join [od, fn @ js ''.woff2'']) (Binary w),
              WriteFile (join [od, fn @ js ''.css'']) (Text (cssOutput fn css)),
              Console Complete, RlClose] @ effects ?h"
      by simp
    then show ?thesis
      by blast
  next
    case False
    with 4 obtain a b w where "effects ?h =
         a @ [WriteFile (join [od, fn @ js ''.woff2'']) (Binary w),
              WriteFile (join [od, fn @ js ''.css'']) (Text (cssOutput fn css)),
              Console Complete, RlClose] @ b"
      by auto
    then have "effects (handle_events e css fn od svgChunks (Finish # events)) =
         (?f @ a) @ [WriteFile (join [od, fn @ js ''.woff2'']) (Binary w),
              WriteFile (join [od, fn @ js ''.css'']) (Text (cssOutput fn css)),
              Console Complete, RlClose] @ b"
      by simp
    then show ?thesis
      by blast
  qed
qed simp_all

lemma handle_events_plain:
  assumes "plain events"
  shows "handle_events e css fn od svgChunks events
    = \<lparr>effects = stream_errors events, exit_status = 0\<rparr>"
  using assms
  by (induction e css fn od svgChunks events rule: handle_events.induct)
    (simp_all add: prepend_effects_run)

lemma handle_events_append:
  assumes "plain events"
  shows "handle_events e css fn od svgChunks (events @ rest)
    = prepend_effects (stream_errors events)
        (handle_events e css fn od (svgChunks @ collected e events) rest)"
  using assms
  by (induction e css fn od svgChunks events rule: handle_events.induct)
    (simp_all add: prepend_effects_twice on_data_def prepend_effects_def)

lemma handle_events_single_finish:
  assumes "plain before" and "plain later"
  shows "handle_events e css fn od svgChunks (before @ Finish # later)
    = \<lparr>effects = stream_errors before
          @ on_finish e (svgChunks @ collected e before) css fn od
          @ stream_errors later,
        exit_status = 0\<rparr>"
  using assms
  by (simp add: handle_events_append handle_events_plain prepend_effects_run)

lemma handle_events_stream_error:
  assumes "no_read_error before"
  shows "Console (FontStreamError err)
    \<in> set (effects (handle_events e css fn od svgChunks (before @ StreamError err # later)))"
  using assms
  by (induction e css fn od svgChunks before rule: handle_events.induct)
    (simp_all add: on_error_def)

lemma handle_events_read_error:
  assumes "no_read_error before"
  shows "exit_status (handle_events e css fn od svgChunks (before @ ReadError err # later)) = 1
    \<and> effects (handle_events e css fn od svgChunks (before @ ReadError err # later)) \<noteq> []
    \<and> last (effects (handle_events e css fn od svgChunks (before @ ReadError err # later)))
      = Uncaught err"
  using assms
  by (induction e css fn od svgChunks before rule: handle_events.induct)
    (simp_all add: on_error_def)

lemma stream_errors_quiet:
  "written (stream_errors events) = []"
  "Console Complete \<notin> set (stream_errors events)"
  "Console (GenerationError err) \<notin> set (stream_errors events)"
  "Uncaught err \<notin> set (stream_errors events)"
  by (induction events rule: stream_errors.induct) (simp_all add: on_error_def)

lemma written_append:
  "written (es @ fs) = written es @ written fs"
  by (induction es rule: written.induct) simp_all

lemma written_empty:
  "written es = [] \<longleftrightarrow> (\<forall>p c. WriteFile p c \<notin> set es)"
  by (induction es rule: written.induct) auto

subsection \<open>The branches of the main function\<close>

lemma main_reaches:
  assumes "reaches_generateFont e svgFiles"
  shows "main e = prepend_effects (before_generateFont e)
    (generateFont e svgFiles (js ''icons'') (join [cwd e, js ''icons'']))"
  using assms
  by (auto simp add: reaches_generateFont_def before_generateFont_def main_def Let_def
      split: option.splits if_splits)

lemma main_cases:
  "main e = \<lparr>effects = [Console DirectoryNotFound], exit_status = 1\<rparr>
   \<or> main e = \<lparr>effects = [Console NoInputFiles], exit_status = 1\<rparr>
   \<or> (\<exists>err. main e = \<lparr>effects = [Uncaught err], exit_status = 1\<rparr>)
   \<or> (\<exists>err. main e = \<lparr>effects = [Mkdir (join [cwd e]), Uncaught err], exit_status = 1\<rparr>)
   \<or> main e = \<lparr>effects = [Console OverwriteQuestion], exit_status = 0\<rparr>
   \<or> main e = \<lparr>effects = [Console OverwriteQuestion, Console UserAborted, RlClose],
         exit_status = 0\<rparr>
   \<or> (\<exists>fs. reaches_generateFont e fs
         \<and> main e = prepend_effects (before_generateFont e)
             (generateFont e fs (js ''icons'') (join [cwd e, js ''icons''])))"
  by (simp add: main_def reaches_generateFont_def before_generateFont_def Let_def
      split: sum.split option.split)

lemma before_generateFont_messages:
  "Console DirectoryNotFound \<notin> set (before_generateFont e)"
  "Console NoInputFiles \<notin> set (before_generateFont e)"
  "Uncaught err \<notin> set (before_generateFont e)"
  "WriteFile p c \<notin> set (before_generateFont e)"
  "Console Complete \<notin> set (before_generateFont e)"
  "Console (GenerationError err) \<notin> set (before_generateFont e)"
  "written (before_generateFont e) = []"
  by (simp_all add: before_generateFont_def)

lemma generateFont_messages:
  "Console DirectoryNotFound \<notin> set (effects (generateFont e fs fn od))"
  "Console NoInputFiles \<notin> set (effects (generateFont e fs fn od))"
  "Mkdir p \<notin> set (effects (generateFont e fs fn od))"
  by (simp_all add: generateFont_def handle_events_messages)

lemma generateFont_status:
  "exit_status (generateFont e fs fn od) = 1 \<or> exit_status (generateFont e fs fn od) = 0"
  "exit_status (generateFont e fs fn od) = 1
   \<longleftrightarrow> (\<exists>err. Uncaught err \<in> set (effects (generateFont e fs fn od)))"
  unfolding generateFont_def
  by (rule handle_events_status, rule handle_events_uncaught)

text \<open>The example world, field by field.\<close>

lemma example_env_paths:
  "join [js ''/p'', js ''svg''] = js ''/p/svg''"
  "join [js ''/p'', js ''icons''] = js ''/p/icons''"
  "join [js ''/p''] = js ''/p''"
  by code_simp+

lemma example_env_fields:
  "cwd (example_env s entries i typed stream ttf) = js ''/p''"
  "existsSync (example_env s entries i typed stream ttf) (js ''/p/svg'') = s"
  "existsSync (example_env s entries i typed stream ttf) (js ''/p/icons'') = i"
  "readdirSync (example_env s entries i typed stream ttf) (js ''/p/svg'') = Inr entries"
  "answer (example_env s entries i typed stream ttf) = typed"
  "toLowerCase (example_env s entries i typed stream ttf) = ascii_lower"
  "fontStream (example_env s entries i typed stream ttf) fontName gs = stream"
  "svg2ttf (example_env s entries i typed stream ttf) document = ttf"
  "ttf2woff2 (example_env s entries i typed stream ttf) ttfBuffer = Inr ttfBuffer"
  "mkdirSync (example_env s entries i typed stream ttf) p = None"
  "writeFileSync (example_env s entries i typed stream ttf) p c = None"
  by (simp_all add: example_env_def) (simp_all add: js_def)

subsection \<open>No input files\<close>

text \<open>
  C6. When the input directory exists and none of its entries ends in \<open>.svg\<close>, the run
  prints the line of the NoInputFiles outcome and ends at once with status 1: no
  directory is made and no file is written.
\<close>

theorem no_input_files_run:
  assumes "existsSync e (join [cwd e, js ''svg''])"
    and "readdirSync e (join [cwd e, js ''svg'']) = Inr files"
    and "\<forall>file \<in> set files. \<not> endsWith file (js ''.svg'')"
  shows "main e = \<lparr>effects = [Console NoInputFiles], exit_status = 1\<rparr>
    \<and> (\<forall>p. Mkdir p \<notin> set (effects (main e)))
    \<and> (\<forall>p c. WriteFile p c \<notin> set (effects (main e)))"
proof -
  from assms(2,3) have "readSVGFiles e (join [cwd e, js ''svg'']) = Inr []"
    by (rule readSVGFiles_none)
  with assms(1) have "main e = \<lparr>effects = [Console NoInputFiles], exit_status = 1\<rparr>"
    by (simp add: main_def Let_def)
  then show ?thesis
    by simp
qed

theorem no_input_files_run_witness:
  "existsSync (example_env True [js ''readme.txt''] False None [Finish] (Inr []))
     (join [cwd (example_env True [js ''readme.txt''] False None [Finish] (Inr [])),
            js ''svg''])
   \<and> \<not> endsWith (js ''readme.txt'') (js ''.svg'')
   \<and> main (example_env True [js ''readme.txt''] False None [Finish] (Inr []))
       = \<lparr>effects = [Console NoInputFiles], exit_status = 1\<rparr>"
proof -
  let ?e = "example_env True [js ''readme.txt''] False None [Finish] (Inr [])"
  have dir: "join [cwd ?e, js ''svg''] = js ''/p/svg''"
    by (simp add: example_env_fields example_env_paths)
  have h1: "existsSync ?e (join [cwd ?e, js ''svg''])"
    by (simp add: example_env_fields example_env_paths)
  have h2: "readdirSync ?e (join [cwd ?e, js ''svg'']) = Inr [js ''readme.txt'']"
    by (simp add: example_env_fields example_env_paths)
  have no: "\<not> endsWith (js ''readme.txt'') (js ''.svg'')"
    by (simp add: endsWith_def slice_def js_def)
  then have h3: "\<forall>file \<in> set [js ''readme.txt'']. \<not> endsWith file (js ''.svg'')"
    by simp
  from no_input_files_run [OF h1 h2 h3] h1 no show ?thesis
    by blast
qed

subsection \<open>Declined overwrite\<close>

text \<open>
  C8. When the input directory holds at least one \<open>.svg\<close> entry, the output directory
  already exists and the answer to the question is not \<open>s\<close> (after trimming and
  lower-casing), the run prints the line of the UserAborted outcome and ends: nothing is
  written and no directory is made.
\<close>

theorem declined_overwrite_run:
  assumes "existsSync e (join [cwd e, js ''svg''])"
    and "readdirSync e (join [cwd e, js ''svg'']) = Inr files"
    and "\<exists>file \<in> set files. endsWith file (js ''.svg'')"
    and "existsSync e (join [cwd e, js ''icons''])"
    and "answer e = Some a"
    and "\<not> confirmed e a"
  shows "main e = \<lparr>effects = [Console OverwriteQuestion, Console UserAborted, RlClose],
                   exit_status = 0\<rparr>
    \<and> (\<forall>p c. WriteFile p c \<notin> set (effects (main e)))
    \<and> (\<forall>p. Mkdir p \<notin> set (effects (main e)))"
proof -
  from readSVGFiles_some [OF assms(2,3)]
  obtain svgFiles where "readSVGFiles e (join [cwd e, js ''svg'']) = Inr svgFiles"
    and "svgFiles \<noteq> []"
    by blast
  with assms(1,4,5,6)
  have "main e = \<lparr>effects = [Console OverwriteQuestion, Console UserAborted, RlClose],
                   exit_status = 0\<rparr>"
    by (simp add: main_def Let_def)
  then show ?thesis
    by simp
qed

theorem declined_overwrite_run_witness:
  "endsWith (js ''a.svg'') (js ''.svg'')
   \<and> \<not> confirmed (example_env True [js ''a.svg''] True (Some (js '' N '')) [Finish]
         (Inr [])) (js '' N '')
   \<and> main (example_env True [js ''a.svg''] True (Some (js '' N '')) [Finish] (Inr []))
       = \<lparr>effects = [Console OverwriteQuestion, Console UserAborted, RlClose],
          exit_status = 0\<rparr>"
proof -
  let ?e = "example_env True [js ''a.svg''] True (Some (js '' N '')) [Finish] (Inr [])"
  have dir: "join [cwd ?e, js ''svg''] = js ''/p/svg''"
    "join [cwd ?e, js ''icons''] = js ''/p/icons''"
    by (simp_all add: example_env_fields example_env_paths)
  have h1: "existsSync ?e (join [cwd ?e, js ''svg''])"
    by (simp add: example_env_fields example_env_paths)
  have h2: "readdirSync ?e (join [cwd ?e, js ''svg'']) = Inr [js ''a.svg'']"
    by (simp add: example_env_fields example_env_paths)
  have yes: "endsWith (js ''a.svg'') (js ''.svg'')"
    by (simp add: endsWith_def slice_def js_def)
  then have h3: "\<exists>file \<in> set [js ''a.svg'']. endsWith file (js ''.svg'')"
    by simp
  have h4: "existsSync ?e (join [cwd ?e, js ''icons''])"
    by (simp add: example_env_fields example_env_paths)
  have h5: "answer ?e = Some (js '' N '')"
    by (simp add: example_env_fields)
  have h6: "\<not> confirmed ?e (js '' N '')"
    by (simp add: confirmed_def example_env_fields trim_def is_space_def ascii_lower_def js_def)
  from declined_overwrite_run [OF h1 h2 h3 h4 h5 h6] yes h6 show ?thesis
    by blast
qed

subsection \<open>Exit status\<close>

text \<open>
  C7, as stated, fails: in the example world, the run without the input directory and the
  run with an input directory that holds no \<open>.svg\<close> entry end with the same status.
\<close>

theorem exit_status_shared_counterexample:
  "main (example_env False [] False None [Finish] (Inr []))
     = \<lparr>effects = [Console DirectoryNotFound], exit_status = 1\<rparr>
   \<and> main (example_env True [js ''readme.txt''] False None [Finish] (Inr []))
     = \<lparr>effects = [Console NoInputFiles], exit_status = 1\<rparr>
   \<and> exit_status (main (example_env False [] False None [Finish] (Inr [])))
     = exit_status (main (example_env True [js ''readme.txt''] False None [Finish]
         (Inr [])))"
proof -
  let ?e1 = "example_env False [] False None [Finish] (Inr [])"
  let ?e2 = "example_env True [js ''readme.txt''] False None [Finish] (Inr [])"
  have "\<not> existsSync ?e1 (join [cwd ?e1, js ''svg''])"
    by (simp add: example_env_fields example_env_paths)
  then have 1: "main ?e1 = \<lparr>effects = [Console DirectoryNotFound], exit_status = 1\<rparr>"
    by (simp add: main_def Let_def)
  have "existsSync ?e2 (join [cwd ?e2, js ''svg''])"
    by (simp add: example_env_fields example_env_paths)
  moreover have "readdirSync ?e2 (join [cwd ?e2, js ''svg'']) = Inr [js ''readme.txt'']"
    by (simp add: example_env_fields example_env_paths)
  moreover have "\<forall>file \<in> set [js ''readme.txt'']. \<not> endsWith file (js ''.svg'')"
    by (simp add: endsWith_def slice_def js_def)
  ultimately have "readSVGFiles ?e2 (join [cwd ?e2, js ''svg'']) = Inr []"
    and "existsSync ?e2 (join [cwd ?e2, js ''svg''])"
    by (simp_all add: readSVGFiles_none)
  then have 2: "main ?e2 = \<lparr>effects = [Console NoInputFiles], exit_status = 1\<rparr>"
    by (simp add: main_def Let_def)
  from 1 2 show ?thesis
    by simp
qed

text \<open>
  C7, amended. A run that prints the line of DirectoryNotFound or the line of
  NoInputFiles ends with status 1, the same for both, and prints nothing else; a run never
  prints both; an uncaught exception ends the run with status 1 as well; every other run
  ends with status 0.
\<close>

theorem exit_status_by_outcome:
  "(Console DirectoryNotFound \<in> set (effects (main e))
      \<longrightarrow> main e = \<lparr>effects = [Console DirectoryNotFound], exit_status = 1\<rparr>)
   \<and> (Console NoInputFiles \<in> set (effects (main e))
      \<longrightarrow> main e = \<lparr>effects = [Console NoInputFiles], exit_status = 1\<rparr>)
   \<and> (exit_status (main e) = 1 \<or> exit_status (main e) = 0)
   \<and> (exit_status (main e) = 1 \<longleftrightarrow>
        Console DirectoryNotFound \<in> set (effects (main e))
        \<or> Console NoInputFiles \<in> set (effects (main e))
        \<or> (\<exists>err. Uncaught err \<in> set (effects (main e))))"
  using main_cases [of e]
proof (elim disjE exE conjE)
  fix fs
  let ?g = "generateFont e fs (js ''icons'') (join [cwd e, js ''icons''])"
  assume run: "main e = prepend_effects (before_generateFont e) ?g"
  have "exit_status ?g = 1 \<or> exit_status ?g = 0"
    and "exit_status ?g = 1 \<longleftrightarrow> (\<exists>err. Uncaught err \<in> set (effects ?g))"
    by (rule generateFont_status)+
  then show ?thesis
    by (simp add: run generateFont_messages before_generateFont_messages)
qed simp_all

theorem exit_status_by_outcome_witness:
  "Console DirectoryNotFound
     \<in> set (effects (main (example_env False [] False None [Finish] (Inr []))))
   \<and> Console NoInputFiles
     \<notin> set (effects (main (example_env False [] False None [Finish] (Inr []))))
   \<and> exit_status (main (example_env False [] False None [Finish] (Inr []))) = 1"
proof -
  let ?e = "example_env False [] False None [Finish] (Inr [])"
  have "\<not> existsSync ?e (join [cwd ?e, js ''svg''])"
    by (simp add: example_env_fields example_env_paths)
  then have "main ?e = \<lparr>effects = [Console DirectoryNotFound], exit_status = 1\<rparr>"
    by (simp add: main_def Let_def)
  then have printed: "Console DirectoryNotFound \<in> set (effects (main ?e))"
    and other: "Console NoInputFiles \<notin> set (effects (main ?e))"
    by simp_all
  from exit_status_by_outcome [of ?e] printed
  have "main ?e = \<lparr>effects = [Console DirectoryNotFound], exit_status = 1\<rparr>"
    by blast
  then have "exit_status (main ?e) = 1"
    by simp
  with printed other show ?thesis
    by blast
qed

subsection \<open>What a run writes and prints\<close>

lemma main_written:
  assumes "WriteFile p c \<in> set (effects (main e))"
  shows "\<exists>fs. reaches_generateFont e fs
    \<and> ((\<exists>w. p = join [join [cwd e, js ''icons''], js ''icons'' @ js ''.woff2'']
            \<and> c = Binary w)
       \<or> (p = join [join [cwd e, js ''icons''], js ''icons'' @ js ''.css'']
            \<and> c = Text (cssOutput (js ''icons'') (cssContent fs))))"
  using main_cases [of e] assms
proof (elim disjE exE conjE)
  fix fs
  let ?g = "generateFont e fs (js ''icons'') (join [cwd e, js ''icons''])"
  assume reach: "reaches_generateFont e fs"
    and run: "main e = prepend_effects (before_generateFont e) ?g"
  with assms have "WriteFile p c \<in> set (effects ?g)"
    by (simp add: before_generateFont_messages)
  then have "(\<exists>w. p = join [join [cwd e, js ''icons''], js ''icons'' @ js ''.woff2'']
            \<and> c = Binary w)
       \<or> (p = join [join [cwd e, js ''icons''], js ''icons'' @ js ''.css'']
            \<and> c = Text (cssOutput (js ''icons'') (cssContent fs)))"
    unfolding generateFont_def by (rule handle_events_written)
  with reach show ?thesis
    by blast
qed simp_all

lemma main_complete:
  assumes "Console Complete \<in> set (effects (main e))"
  shows "\<exists>fs a b w. reaches_generateFont e fs
    \<and> effects (main e) =
        a @ [WriteFile (join [join [cwd e, js ''icons''], js ''icons'' @ js ''.woff2''])
               (Binary w),
             WriteFile (join [join [cwd e, js ''icons''], js ''icons'' @ js ''.css''])
               (Text (cssOutput (js ''icons'') (cssContent fs))),
             Console Complete, RlClose] @ b"
  using main_cases [of e] assms
proof (elim disjE exE conjE)
  fix fs
  let ?g = "generateFont e fs (js ''icons'') (join [cwd e, js ''icons''])"
  assume reach: "reaches_generateFont e fs"
    and run: "main e = prepend_effects (before_generateFont e) ?g"
  with assms have "Console Complete \<in> set (effects ?g)"
    by (simp add: before_generateFont_messages)
  then obtain a b w where "effects ?g =
        a @ [WriteFile (join [join [cwd e, js ''icons''], js ''icons'' @ js ''.woff2''])
               (Binary w),
             WriteFile (join [join [cwd e, js ''icons''], js ''icons'' @ js ''.css''])
               (Text (cssOutput (js ''icons'') (cssContent fs))),
             Console Complete, RlClose] @ b"
    unfolding generateFont_def using handle_events_complete by blast
  then have "effects (main e) =
        (before_generateFont e @ a)
          @ [WriteFile (join [join [cwd e, js ''icons''], js ''icons'' @ js ''.woff2''])
               (Binary w),
             WriteFile (join [join [cwd e, js ''icons''], js ''icons'' @ js ''.css''])
               (Text (cssOutput (js ''icons'') (cssContent fs))),
             Console Complete, RlClose] @ b"
    by (simp add: run)
  with reach show ?thesis
    by blast
qed simp_all

lemma main_single_finish:
  assumes "reaches_generateFont e fs"
    and "fontStream e (js ''icons'') (glyphs fs) = before @ Finish # later"
    and "plain before" and "plain later"
  shows "main e = \<lparr>effects = before_generateFont e @ stream_errors before
      @ on_finish e (collected e before) (cssContent fs) (js ''icons'')
          (join [cwd e, js ''icons''])
      @ stream_errors later, exit_status = 0\<rparr>"
  using assms
  by (simp add: main_reaches generateFont_def handle_events_single_finish prepend_effects_run)

lemma main_stream_error:
  assumes "reaches_generateFont e fs"
    and "fontStream e (js ''icons'') (glyphs fs) = before @ StreamError err # later"
    and "no_read_error before"
  shows "Console (FontStreamError err) \<in> set (effects (main e))"
  using assms by (simp add: main_reaches generateFont_def handle_events_stream_error)

lemma main_read_error:
  assumes "reaches_generateFont e fs"
    and "fontStream e (js ''icons'') (glyphs fs) = before @ ReadError err # later"
    and "no_read_error before"
  shows "exit_status (main e) = 1 \<and> last (effects (main e)) = Uncaught err"
  using assms handle_events_read_error [of before e "cssContent fs" "js ''icons''"
      "join [cwd e, js ''icons'']" "[]" err later]
  by (simp add: main_reaches generateFont_def)

lemma main_early:
  assumes "Console DirectoryNotFound \<in> set (effects (main e))
      \<or> Console NoInputFiles \<in> set (effects (main e))"
  shows "exit_status (main e) = 1 \<and> written (effects (main e)) = []"
  using main_cases [of e] assms
  by (elim disjE exE conjE)
    (simp_all add: generateFont_messages before_generateFont_messages)

lemma main_caught:
  assumes "Console (GenerationError err) \<in> set (effects (main e))
      \<or> Console (FontStreamError err) \<in> set (effects (main e))"
    and "\<forall>x. Uncaught x \<notin> set (effects (main e))"
  shows "exit_status (main e) = 0"
  using main_cases [of e]
proof (elim disjE exE conjE)
  fix fs
  let ?g = "generateFont e fs (js ''icons'') (join [cwd e, js ''icons''])"
  assume run: "main e = prepend_effects (before_generateFont e) ?g"
  have "exit_status ?g = 1 \<or> exit_status ?g = 0"
    and "exit_status ?g = 1 \<longleftrightarrow> (\<exists>x. Uncaught x \<in> set (effects ?g))"
    by (rule generateFont_status)+
  with assms(2) show ?thesis
    by (auto simp add: run)
qed (use assms in simp_all)

lemma reaches_generateFont_files:
  assumes "reaches_generateFont e fs"
    and "readSVGFiles e (join [cwd e, js ''svg'']) = Inr svgFiles"
  shows "fs = svgFiles"
  using assms by (simp add: reaches_generateFont_def)

text \<open>Runs in the example world with one icon and no output directory yet.\<close>

lemma example_files:
  "readSVGFiles (example_env s [js ''a.svg''] i typed stream ttf) (js ''/p/svg'')
     = Inr [js ''/p/svg/a.svg'']"
proof -
  have "join [js ''/p/svg'', js ''a.svg''] = js ''/p/svg/a.svg''"
    by code_simp
  moreover have "endsWith (js ''a.svg'') (js ''.svg'')"
    by (simp add: endsWith_def slice_def js_def)
  ultimately show ?thesis
    by (simp add: readSVGFiles_def example_env_fields)
qed

lemma example_reaches:
  "reaches_generateFont (example_env True [js ''a.svg''] False typed stream ttf)
     [js ''/p/svg/a.svg'']"
  by (simp add: reaches_generateFont_def example_env_fields example_env_paths example_files)

lemma example_before:
  "before_generateFont (example_env s entries False typed stream ttf)
     = [Mkdir (js ''/p''), Mkdir (js ''/p/icons'')]"
  by (simp add: before_generateFont_def example_env_fields example_env_paths)

lemma example_output_paths:
  "join [js ''/p/icons'', js ''icons'' @ js ''.woff2''] = js ''/p/icons/icons.woff2''"
  "join [js ''/p/icons'', js ''icons'' @ js ''.css''] = js ''/p/icons/icons.css''"
  by code_simp+

lemma example_transcode:
  "transcode (example_env s entries i typed stream ttf) svgChunks = ttf"
  by (simp add: transcode_def example_env_fields split: sum.split)

subsection \<open>Errors end the run\<close>

text \<open>
  C5, as stated, fails: in the example world with one icon where the first converter
  throws, the error is printed and the run ends with status 0.
\<close>

theorem transcode_error_exit_counterexample:
  "main (example_env True [js ''a.svg''] False None [Finish] (Inl (js ''bad font'')))
     = \<lparr>effects = [Mkdir (js ''/p''), Mkdir (js ''/p/icons''),
                    Console (GenerationError (js ''bad font'')), RlClose],
        exit_status = 0\<rparr>"
proof -
  let ?e = "example_env True [js ''a.svg''] False None [Finish] (Inl (js ''bad font''))"
  have "fontStream ?e (js ''icons'') (glyphs [js ''/p/svg/a.svg'']) = [] @ Finish # []"
    by (simp add: example_env_fields)
  from main_single_finish [OF example_reaches this]
  have "main ?e = \<lparr>effects = before_generateFont ?e
      @ on_finish ?e [] (cssContent [js ''/p/svg/a.svg'']) (js ''icons'')
          (join [cwd ?e, js ''icons'']), exit_status = 0\<rparr>"
    by simp
  moreover have "transcode ?e [] = Inl (js ''bad font'')"
    by (rule example_transcode)
  then have "on_finish ?e [] (cssContent [js ''/p/svg/a.svg'']) (js ''icons'')
      (join [cwd ?e, js ''icons'']) = [Console (GenerationError (js ''bad font'')), RlClose]"
    by (rule on_finish_transcode_error)
  ultimately show ?thesis
    by (simp add: example_before)
qed

text \<open>
  C5, amended. No error is retried, and a failed conversion leaves no file behind.
  \<^item> A run that prints the line of DirectoryNotFound or of NoInputFiles ends with
    status 1 and has written nothing.
  \<^item> When one of the two converters throws, the \<open>finish\<close> handler prints the exception
    and closes the prompt, and does nothing else. In a run that gets as far as
    \<open>generateFont\<close>, in which the font stream finishes once and no read stream fails,
    the exception is printed, nothing is written, completion is not reported and the
    status is 0.
  \<^item> In a run that gets as far as \<open>generateFont\<close>, an error of the font stream is printed,
    unless an error of a read stream has ended the run before.
  \<^item> The first error of a read stream ends the run, uncaught, with status 1.
  \<^item> A run that prints an exception of the \<open>finish\<close> handler or an error of the font
    stream ends with status 0, unless an exception is uncaught.
  \<^item> A run that reports completion has just written the two output files, the font
    before the stylesheet.
\<close>

theorem errors_end_the_run:
  "(Console DirectoryNotFound \<in> set (effects (main e))
      \<or> Console NoInputFiles \<in> set (effects (main e))
      \<longrightarrow> exit_status (main e) = 1 \<and> written (effects (main e)) = [])
   \<and> (transcode e svgChunks = Inl err
      \<longrightarrow> on_finish e svgChunks css fontName outputDir
            = [Console (GenerationError err), RlClose])
   \<and> (reaches_generateFont e svgFiles
        \<and> fontStream e (js ''icons'') (glyphs svgFiles) = before @ Finish # later
        \<and> plain before \<and> plain later
        \<and> transcode e (collected e before) = Inl err
      \<longrightarrow> Console (GenerationError err) \<in> set (effects (main e))
          \<and> written (effects (main e)) = []
          \<and> Console Complete \<notin> set (effects (main e))
          \<and> exit_status (main e) = 0)
   \<and> (reaches_generateFont e svgFiles
        \<and> fontStream e (js ''icons'') (glyphs svgFiles) = before @ StreamError err # later
        \<and> no_read_error before
      \<longrightarrow> Console (FontStreamError err) \<in> set (effects (main e)))
   \<and> (reaches_generateFont e svgFiles
        \<and> fontStream e (js ''icons'') (glyphs svgFiles) = before @ ReadError err # later
        \<and> no_read_error before
      \<longrightarrow> exit_status (main e) = 1 \<and> last (effects (main e)) = Uncaught err)
   \<and> ((Console (GenerationError err) \<in> set (effects (main e))
         \<or> Console (FontStreamError err) \<in> set (effects (main e)))
        \<and> (\<forall>x. Uncaught x \<notin> set (effects (main e)))
      \<longrightarrow> exit_status (main e) = 0)
   \<and> (Console Complete \<in> set (effects (main e))
      \<longrightarrow> (\<exists>fs a b w. readSVGFiles e (join [cwd e, js ''svg'']) = Inr fs
            \<and> effects (main e) =
                a @ [WriteFile (join [join [cwd e, js ''icons''], js ''icons'' @ js ''.woff2''])
                       (Binary w),
                     WriteFile (join [join [cwd e, js ''icons''], js ''icons'' @ js ''.css''])
                       (Text (cssOutput (js ''icons'') (cssContent fs))),
                     Console Complete, RlClose] @ b))"
proof (intro conjI impI)
  assume "Console DirectoryNotFound \<in> set (effects (main e))
      \<or> Console NoInputFiles \<in> set (effects (main e))"
  from main_early [OF this]
  show "exit_status (main e) = 1" "written (effects (main e)) = []"
    by simp_all
next
  assume "transcode e svgChunks = Inl err"
  then show "on_finish e svgChunks css fontName outputDir
      = [Console (GenerationError err), RlClose]"
    by (rule on_finish_transcode_error)
next
  assume a: "reaches_generateFont e svgFiles
        \<and> fontStream e (js ''icons'') (glyphs svgFiles) = before @ Finish # later
        \<and> plain before \<and> plain later
        \<and> transcode e (collected e before) = Inl err"
  then have "main e = \<lparr>effects = before_generateFont e @ stream_errors before
      @ on_finish e (collected e before) (cssContent svgFiles) (js ''icons'')
          (join [cwd e, js ''icons''])
      @ stream_errors later, exit_status = 0\<rparr>"
    by (intro main_single_finish) simp_all
  moreover from a have "on_finish e (collected e before) (cssContent svgFiles) (js ''icons'')
      (join [cwd e, js ''icons'']) = [Console (GenerationError err), RlClose]"
    by (intro on_finish_transcode_error) simp
  ultimately have run: "main e = \<lparr>effects = before_generateFont e @ stream_errors before
      @ [Console (GenerationError err), RlClose] @ stream_errors later, exit_status = 0\<rparr>"
    by simp
  show "Console (GenerationError err) \<in> set (effects (main e))"
    "written (effects (main e)) = []"
    "Console Complete \<notin> set (effects (main e))"
    "exit_status (main e) = 0"
    by (simp_all add: run written_append stream_errors_quiet before_generateFont_messages)
next
  assume "reaches_generateFont e svgFiles
        \<and> fontStream e (js ''icons'') (glyphs svgFiles) = before @ StreamError err # later
        \<and> no_read_error before"
  then show "Console (FontStreamError err) \<in> set (effects (main e))"
    by (intro main_stream_error [of e svgFiles before err later]) simp_all
next
  assume "reaches_generateFont e svgFiles
        \<and> fontStream e (js ''icons'') (glyphs svgFiles) = before @ ReadError err # later
        \<and> no_read_error before"
  then have "exit_status (main e) = 1 \<and> last (effects (main e)) = Uncaught err"
    by (intro main_read_error [of e svgFiles before err later]) simp_all
  then show "exit_status (main e) = 1" "last (effects (main e)) = Uncaught err"
    by simp_all
next
  assume "(Console (GenerationError err) \<in> set (effects (main e))
         \<or> Console (FontStreamError err) \<in> set (effects (main e)))
        \<and> (\<forall>x. Uncaught x \<notin> set (effects (main e)))"
  then show "exit_status (main e) = 0"
    using main_caught [of err e] by blast
next
  assume "Console Complete \<in> set (effects (main e))"
  from main_complete [OF this]
  show "\<exists>fs a b w. readSVGFiles e (join [cwd e, js ''svg'']) = Inr fs
            \<and> effects (main e) =
                a @ [WriteFile (join [join [cwd e, js ''icons''], js ''icons'' @ js ''.woff2''])
                       (Binary w),
                     WriteFile (join [join [cwd e, js ''icons''], js ''icons'' @ js ''.css''])
                       (Text (cssOutput (js ''icons'') (cssContent fs))),
                     Console Complete, RlClose] @ b"
    unfolding reaches_generateFont_def by blast
qed

theorem errors_end_the_run_witness:
  "Console DirectoryNotFound
     \<in> set (effects (main (example_env False [] False None [Finish] (Inr []))))
   \<and> exit_status (main (example_env False [] False None [Finish] (Inr []))) = 1
   \<and> written (effects (main (example_env False [] False None [Finish] (Inr [])))) = []
   \<and> transcode (example_env True [js ''a.svg''] False None
         [Data (BufferChunk [0x3C]), Finish] (Inl (js ''bad font''))) [[0x3C]]
       = Inl (js ''bad font'')
   \<and> on_finish (example_env True [js ''a.svg''] False None
         [Data (BufferChunk [0x3C]), Finish] (Inl (js ''bad font''))) [[0x3C]]
         [] (js ''icons'') (js ''/p/icons'')
       = [Console (GenerationError (js ''bad font'')), RlClose]
   \<and> Console (GenerationError (js ''bad font''))
     \<in> set (effects (main (example_env True [js ''a.svg''] False None
         [Data (BufferChunk [0x3C]), Finish] (Inl (js ''bad font'')))))
   \<and> written (effects (main (example_env True [js ''a.svg''] False None
         [Data (BufferChunk [0x3C]), Finish] (Inl (js ''bad font''))))) = []
   \<and> Console Complete
     \<notin> set (effects (main (example_env True [js ''a.svg''] False None
         [Data (BufferChunk [0x3C]), Finish] (Inl (js ''bad font'')))))
   \<and> exit_status (main (example_env True [js ''a.svg''] False None
         [Data (BufferChunk [0x3C]), Finish] (Inl (js ''bad font'')))) = 0
   \<and> Console (FontStreamError (js ''boom''))
     \<in> set (effects (main (example_env True [js ''a.svg''] False None
         [StreamError (js ''boom''), Finish] (Inr [0x77]))))
   \<and> Console Complete
     \<in> set (effects (main (example_env True [js ''a.svg''] False None
         [StreamError (js ''boom''), Finish] (Inr [0x77]))))
   \<and> WriteFile (js ''/p/icons/icons.css'')
         (Text (cssOutput (js ''icons'') (cssContent [js ''/p/svg/a.svg''])))
     \<in> set (effects (main (example_env True [js ''a.svg''] False None
         [StreamError (js ''boom''), Finish] (Inr [0x77]))))
   \<and> exit_status (main (example_env True [js ''a.svg''] False None
         [StreamError (js ''boom''), Finish] (Inr [0x77]))) = 0
   \<and> exit_status (main (example_env True [js ''a.svg''] False None
         [ReadError (js ''ENOENT'')] (Inr [0x77]))) = 1
   \<and> last (effects (main (example_env True [js ''a.svg''] False None
         [ReadError (js ''ENOENT'')] (Inr [0x77])))) = Uncaught (js ''ENOENT'')"
proof -
  let ?e1 = "example_env False [] False None [Finish] (Inr [])"
  let ?e2 = "example_env True [js ''a.svg''] False None
    [Data (BufferChunk [0x3C]), Finish] (Inl (js ''bad font''))"
  let ?e3 = "example_env True [js ''a.svg''] False None
    [StreamError (js ''boom''), Finish] (Inr [0x77])"
  let ?e4 = "example_env True [js ''a.svg''] False None [ReadError (js ''ENOENT'')] (Inr [0x77])"
  let ?fs = "[js ''/p/svg/a.svg'']"
  have "\<not> existsSync ?e1 (join [cwd ?e1, js ''svg''])"
    by (simp add: example_env_fields example_env_paths)
  then have h1: "Console DirectoryNotFound \<in> set (effects (main ?e1))"
    by (simp add: main_def Let_def)
  from errors_end_the_run [of ?e1] h1
  have r1: "exit_status (main ?e1) = 1" "written (effects (main ?e1)) = []"
    by blast+
  have t2: "transcode ?e2 [[0x3C]] = Inl (js ''bad font'')"
    by (rule example_transcode)
  from errors_end_the_run [where e = ?e2 and svgChunks = "[[0x3C]]" and err = "js ''bad font''"
      and css = "[]" and fontName = "js ''icons''" and outputDir = "js ''/p/icons''"] t2
  have f2: "on_finish ?e2 [[0x3C]] [] (js ''icons'') (js ''/p/icons'')
      = [Console (GenerationError (js ''bad font'')), RlClose]"
    by blast
  have h2: "reaches_generateFont ?e2 ?fs
      \<and> fontStream ?e2 (js ''icons'') (glyphs ?fs) = [Data (BufferChunk [0x3C])] @ Finish # []
      \<and> plain [Data (BufferChunk [0x3C])] \<and> plain []
      \<and> transcode ?e2 (collected ?e2 [Data (BufferChunk [0x3C])]) = Inl (js ''bad font'')"
    by (simp add: example_reaches example_env_fields example_transcode)
  from errors_end_the_run [where e = ?e2 and svgFiles = ?fs and err = "js ''bad font''"
      and before = "[Data (BufferChunk [0x3C])]" and later = "[]"] h2
  have r2: "Console (GenerationError (js ''bad font'')) \<in> set (effects (main ?e2))"
    "written (effects (main ?e2)) = []"
    "Console Complete \<notin> set (effects (main ?e2))"
    "exit_status (main ?e2) = 0"
    by blast+
  have h3: "reaches_generateFont ?e3 ?fs
      \<and> fontStream ?e3 (js ''icons'') (glyphs ?fs) = [] @ StreamError (js ''boom'') # [Finish]
      \<and> no_read_error []"
    by (simp add: example_reaches example_env_fields)
  from errors_end_the_run [where e = ?e3 and svgFiles = ?fs and err = "js ''boom''"
      and before = "[]" and later = "[Finish]"] h3
  have r3: "Console (FontStreamError (js ''boom'')) \<in> set (effects (main ?e3))"
    by blast
  have "fontStream ?e3 (js ''icons'') (glyphs ?fs) = [StreamError (js ''boom'')] @ Finish # []"
    by (simp add: example_env_fields)
  from main_single_finish [OF example_reaches this]
  have run3: "main ?e3 = \<lparr>effects = before_generateFont ?e3 @ on_error (js ''boom'')
      @ on_finish ?e3 [] (cssContent ?fs) (js ''icons'') (join [cwd ?e3, js ''icons'']),
      exit_status = 0\<rparr>"
    by simp
  have "on_finish ?e3 [] (cssContent ?fs) (js ''icons'') (join [cwd ?e3, js ''icons''])
      = [WriteFile (join [join [cwd ?e3, js ''icons''], js ''icons'' @ js ''.woff2''])
           (Binary [0x77]),
         WriteFile (join [join [cwd ?e3, js ''icons''], js ''icons'' @ js ''.css''])
           (Text (cssOutput (js ''icons'') (cssContent ?fs))),
         Console Complete, RlClose]"
    by (intro on_finish_complete) (simp_all add: example_transcode example_env_fields)
  with run3 have c3: "Console Complete \<in> set (effects (main ?e3))"
    and u3: "\<forall>x. Uncaught x \<notin> set (effects (main ?e3))"
    by (simp_all add: example_before on_error_def)
  from errors_end_the_run [where e = ?e3] c3
  obtain fs a b w where "readSVGFiles ?e3 (join [cwd ?e3, js ''svg'']) = Inr fs"
    and "effects (main ?e3) =
      a @ [WriteFile (join [join [cwd ?e3, js ''icons''], js ''icons'' @ js ''.woff2''])
             (Binary w),
           WriteFile (join [join [cwd ?e3, js ''icons''], js ''icons'' @ js ''.css''])
             (Text (cssOutput (js ''icons'') (cssContent fs))),
           Console Complete, RlClose] @ b"
    by blast
  then have w3: "WriteFile (js ''/p/icons/icons.css'')
      (Text (cssOutput (js ''icons'') (cssContent ?fs))) \<in> set (effects (main ?e3))"
    by (simp add: example_env_fields example_env_paths example_output_paths example_files)
  from errors_end_the_run [where e = ?e3 and err = "js ''boom''"] r3 u3
  have s3: "exit_status (main ?e3) = 0"
    by blast
  have h4: "reaches_generateFont ?e4 ?fs
      \<and> fontStream ?e4 (js ''icons'') (glyphs ?fs) = [] @ ReadError (js ''ENOENT'') # []
      \<and> no_read_error []"
    by (simp add: example_reaches example_env_fields)
  from errors_end_the_run [where e = ?e4 and svgFiles = ?fs and err = "js ''ENOENT''"
      and before = "[]" and later = "[]"] h4
  have r4: "exit_status (main ?e4) = 1" "last (effects (main ?e4)) = Uncaught (js ''ENOENT'')"
    by blast+
  from h1 r1 t2 f2 r2 r3 c3 w3 s3 r4 show ?thesis
    by blast
qed

section \<open>Properties of the collected files\<close>

subsection \<open>Joining a directory and one of its entries\<close>

lemma js_slash: "js ''/'' = [CHAR_FORWARD_SLASH]"
  by (simp add: js_def CHAR_FORWARD_SLASH_def)

lemma normalizeString_last_segment:
  assumes "entry_name file"
  shows "\<exists>r. normalizeString (directory @ CHAR_FORWARD_SLASH # file) a =
     (if length r > 0 then r @ CHAR_FORWARD_SLASH # file else file)"
proof -
  let ?pre = "directory @ [CHAR_FORWARD_SLASH]"
  let ?path = "?pre @ file"
  let ?init = "\<lparr>res = [], lastSegmentLength = 0, lastSlash = -1, dots = 0, code = 0\<rparr>"
  from assms have fl: "file \<noteq> []" "CHAR_FORWARD_SLASH \<notin> set file"
    "file \<noteq> [CHAR_DOT]" "file \<noteq> [CHAR_DOT, CHAR_DOT]"
    by (simp_all add: entry_name_def)
  have "0 < length ?pre" "length ?pre \<le> length ?path"
    "?path ! (length ?pre - 1) = CHAR_FORWARD_SLASH"
    by (simp_all add: nth_append)
  from normalize_loop_to_separator [OF this, of a ?init]
  obtain st' where to: "normalize_loop ?path a 0 ?init = normalize_loop ?path a (length ?pre) st'"
    and st': "lastSlash st' = int (length ?pre) - 1" "dots st' = 0"
    by blast
  have "normalize_loop ?path a (length ?pre + 0) st' =
      (if length (res st') > 0 then res st' @ CHAR_FORWARD_SLASH # file else file)"
    using st' by (intro normalize_loop_last_segment [OF fl]) (simp_all add: all_dots_def)
  with to show ?thesis
    by (auto simp add: normalizeString_def)
qed

lemma join_directory_entry:
  assumes "directory \<noteq> []" "directory ! 0 = CHAR_FORWARD_SLASH"
    and "entry_name file"
  shows "\<exists>pre. join [directory, file] = pre @ CHAR_FORWARD_SLASH # file"
proof -
  let ?path = "directory @ CHAR_FORWARD_SLASH # file"
  from assms(3) have fl: "file \<noteq> []" "CHAR_FORWARD_SLASH \<notin> set file"
    by (simp_all add: entry_name_def)
  then have "last file \<noteq> CHAR_FORWARD_SLASH"
    by (metis last_in_set)
  then have trailing: "?path ! (length ?path - 1) \<noteq> CHAR_FORWARD_SLASH"
    using fl(1) by (simp add: nth_append last_conv_nth)
  have absolute: "?path ! 0 = CHAR_FORWARD_SLASH"
    using assms(1,2) by (simp add: nth_append)
  from normalizeString_last_segment [OF assms(3), of directory False]
  obtain r where r: "normalizeString ?path False =
      (if length r > 0 then r @ CHAR_FORWARD_SLASH # file else file)"
    by blast
  then have nonempty: "length (normalizeString ?path False) \<noteq> 0"
    using fl(1) by simp
  have "join [directory, file] = normalize ?path"
    using assms(1) fl(1) by (simp add: join_def js_slash)
  also have "\<dots> = CHAR_FORWARD_SLASH # normalizeString ?path False"
    using trailing absolute nonempty by (simp add: normalize_def Let_def js_slash)
  finally have joined: "join [directory, file]
      = CHAR_FORWARD_SLASH # normalizeString ?path False" .
  show ?thesis
  proof (cases "length r > 0")
    case True
    with r joined have "join [directory, file]
        = (CHAR_FORWARD_SLASH # r) @ CHAR_FORWARD_SLASH # file"
      by simp
    then show ?thesis ..
  next
    case False
    with r joined have "join [directory, file] = [] @ CHAR_FORWARD_SLASH # file"
      by simp
    then show ?thesis ..
  qed
qed

subsection \<open>The glyph name of a collected file\<close>

lemma js_svg_length: "length (js ''.svg'') = 4" "js ''.svg'' \<noteq> []"
  by (simp_all add: js_def)

text \<open>
  C9, as stated, fails: the entry \<open>a.svg.svg\<close> of the directory \<open>/p/svg\<close> is
  collected, and its glyph name is \<open>a-svg\<close>.
\<close>

theorem glyph_name_svg_suffix_counterexample:
  "endsWith (js ''a.svg.svg'') (js ''.svg'')
   \<and> glyphName (join [js ''/p/svg'', js ''a.svg.svg'']) = js ''a-svg''
   \<and> endsWith (glyphName (join [js ''/p/svg'', js ''a.svg.svg''])) (js ''-svg'')"
  by code_simp

text \<open>
  C9, amended. For an entry \<open>file\<close> of an absolute directory that ends in \<open>.svg\<close>, the
  glyph name of the collected path is the sanitized entry without its last four code
  units, so \<open>a.b.svg\<close> gives \<open>a-b\<close>; only the entry named \<open>.svg\<close> keeps its
  extension and gives \<open>-svg\<close>. The glyph metadata and the stylesheet rule carry that name.
\<close>

theorem glyph_name_of_collected_file:
  assumes "directory \<noteq> []" "directory ! 0 = CHAR_FORWARD_SLASH"
    and "entry_name file"
    and "endsWith file (js ''.svg'')"
  shows "glyphName (join [directory, file]) =
      (if file = js ''.svg'' then js ''-svg''
       else sanitizeGlyphName (take (length file - 4) file))
    \<and> name (metadata (glyph_of (join [directory, file]) index))
        = glyphName (join [directory, file])
    \<and> take (length (js ''.icon-'' @ glyphName (join [directory, file])))
          (cssRule (join [directory, file]) index)
        = js ''.icon-'' @ glyphName (join [directory, file])"
proof -
  from join_directory_entry [OF assms(1-3)]
  obtain pre where pre: "join [directory, file] = pre @ CHAR_FORWARD_SLASH # file"
    by blast
  from assms(3) have fl: "file \<noteq> []" "CHAR_FORWARD_SLASH \<notin> set file"
    by (simp_all add: entry_name_def)
  from assms(4) have len: "length (js ''.svg'') \<le> length file"
    by (simp add: endsWith_def)
  have "basename (join [directory, file]) (js ''.svg'') =
      (if file \<noteq> js ''.svg'' then take (length file - 4) file else file)"
    using basename_of_entry [OF js_svg_length(2) fl len, of pre] assms(4)
    by (simp add: pre js_svg_length)
  moreover have "sanitizeGlyphName (js ''.svg'') = js ''-svg''"
    by (simp add: sanitizeGlyphName_map js_def is_alnum_def)
  ultimately have "glyphName (join [directory, file]) =
      (if file = js ''.svg'' then js ''-svg''
       else sanitizeGlyphName (take (length file - 4) file))"
    by (simp add: glyphName_def)
  then show ?thesis
    by (simp add: glyph_of_def cssRule_def)
qed

theorem glyph_name_of_collected_file_witness:
  "entry_name (js ''a.b.svg'') \<and> endsWith (js ''a.b.svg'') (js ''.svg'')
   \<and> glyphName (join [js ''/p/svg'', js ''a.b.svg'']) = js ''a-b''
   \<and> name (metadata (glyph_of (join [js ''/p/svg'', js ''a.b.svg'']) 0)) = js ''a-b''"
proof -
  have h1: "js ''/p/svg'' \<noteq> []" and h2: "js ''/p/svg'' ! 0 = CHAR_FORWARD_SLASH"
    by (simp_all add: js_def CHAR_FORWARD_SLASH_def)
  have h3: "entry_name (js ''a.b.svg'')"
    by (simp add: entry_name_def js_def CHAR_FORWARD_SLASH_def CHAR_DOT_def)
  have h4: "endsWith (js ''a.b.svg'') (js ''.svg'')"
    by (simp add: endsWith_def slice_def js_def)
  have "js ''a.b.svg'' \<noteq> js ''.svg''"
    by (simp add: js_def)
  moreover have "sanitizeGlyphName (take (length (js ''a.b.svg'') - 4) (js ''a.b.svg''))
      = js ''a-b''"
    by (simp add: sanitizeGlyphName_map js_def is_alnum_def)
  ultimately show ?thesis
    using glyph_name_of_collected_file [OF h1 h2 h3 h4, of 0] h3 h4 by simp
qed

section \<open>Properties of the stylesheet\<close>

subsection \<open>Hexadecimal digits\<close>

lemma digit_char_hex:
  assumes "d < 16"
  shows "is_hex_digit (digit_char d)" "hex_digit_value (digit_char d) = d"
proof -
  have small: "d < 10 \<Longrightarrow> unat (word_of_nat (0x30 + d) :: jschar) = 0x30 + d"
    by (simp only: unat_of_nat) simp
  have large: "\<not> d < 10 \<Longrightarrow> unat (word_of_nat (0x61 + (d - 10)) :: jschar) = 0x61 + (d - 10)"
    using assms by (simp only: unat_of_nat) simp
  have bounds: "(0x30 \<le> c \<and> c \<le> 0x39) = (0x30 \<le> unat c \<and> unat c \<le> 0x39)"
    "(0x61 \<le> c \<and> c \<le> 0x66) = (0x61 \<le> unat c \<and> unat c \<le> 0x66)" for c :: jschar
    by (simp_all add: word_le_nat_alt)
  show "is_hex_digit (digit_char d)"
    unfolding is_hex_digit_def digit_char_def bounds using assms small large
    by (cases "d < 10") simp_all
  show "hex_digit_value (digit_char d) = d"
    unfolding hex_digit_value_def digit_char_def bounds using assms small large
    by (cases "d < 10") simp_all
qed

lemma hex_value_snoc: "hex_value (s @ [c]) = 16 * hex_value s + hex_digit_value c"
  by (simp add: hex_value_def)

lemma natToString_hex:
  "hex_value (natToString 16 n) = n \<and> (\<forall>c \<in> set (natToString 16 n). is_hex_digit c)"
proof (induction n rule: less_induct)
  case (less n)
  show ?case
  proof (cases "n < 16")
    case True
    then have "natToString 16 n = [digit_char n]"
      by (subst natToString.simps) simp
    with True digit_char_hex [of n] show ?thesis
      by (simp add: hex_value_def)
  next
    case False
    then have unfold: "natToString 16 n = natToString 16 (n div 16) @ [digit_char (n mod 16)]"
      by (subst natToString.simps) simp
    from False have "n div 16 < n"
      by simp
    from less.IH [OF this] digit_char_hex [of "n mod 16"] show ?thesis
      by (simp add: unfold hex_value_snoc)
  qed
qed

subsection \<open>Lines\<close>

lemma split_on_none: "c \<notin> set s \<Longrightarrow> split_on c s = [s]"
  by (induction s) auto

lemma split_on_append: "c \<notin> set a \<Longrightarrow> split_on c (a @ c # b) = a # split_on c b"
  by (induction a) auto

lemma split_on_array_join:
  assumes "ls \<noteq> []" "\<forall>l \<in> set ls. c \<notin> set l"
  shows "split_on c (array_join [c] ls) = ls"
  using assms
proof (induction "[c]" ls rule: array_join.induct)
  case 1
  then show ?case by simp
next
  case (2 x)
  then show ?case by (simp add: split_on_none)
next
  case (3 x y ys)
  then show ?case by (simp add: split_on_append)
qed

lemma array_join_append:
  assumes "xs \<noteq> []" "ys \<noteq> []"
  shows "array_join sep (xs @ ys) = array_join sep xs @ sep @ array_join sep ys"
  using assms
proof (induction sep xs rule: array_join.induct)
  case (1 sep)
  then show ?case by simp
next
  case (2 sep x)
  then show ?case by (cases ys) simp_all
next
  case (3 sep x y ys)
  then show ?case by simp
qed

subsection \<open>The rules\<close>

lemma indexed_nth:
  "i < length svgFiles \<Longrightarrow> indexed svgFiles ! i = (svgFiles ! i, i)"
  by (simp add: indexed_def)

lemma cssContent_length: "length (cssContent svgFiles) = length svgFiles"
  by (simp add: cssContent_def indexed_def)

lemma cssContent_nth:
  "i < length svgFiles \<Longrightarrow> cssContent svgFiles ! i = cssRule (svgFiles ! i) i"
  by (simp add: cssContent_def indexed_def)

lemma cssRule_codePoint:
  "cssRule file index =
     js ''.icon-'' @ glyphName file @ js '':before { content: '' @ dq @ backslash
       @ numberToString 16 (codePoint index) @ dq @ js ''; }''"
  by (simp add: cssRule_def codePoint_def)

lemma codePoint_hex:
  "Some (hex_value (numberToString 16 (codePoint index))) = codePoint index"
  "\<forall>c \<in> set (numberToString 16 (codePoint index)). is_hex_digit c"
  using natToString_hex [of "(0xe000 + index) mod 0x10000"]
  by (simp_all add: codePoint_mod numberToString_def)

lemma glyphName_chars: "c \<in> set (glyphName file) \<Longrightarrow> is_alnum c \<or> c = 0x2D"
  by (auto simp add: glyphName_def sanitizeGlyphName_map)

lemma cssRule_no_newline: "0x0A \<notin> set (cssRule file index)"
proof -
  have "0x0A \<notin> set (glyphName file)"
    using glyphName_chars [of "0x0A" "file"] by (auto simp add: is_alnum_def)
  moreover have "0x0A \<notin> set (numberToString 16 (codePoint index))"
    using codePoint_hex(2) [of index] by (auto simp add: is_hex_digit_def)
  ultimately show ?thesis
    by (simp add: cssRule_codePoint js_def dq_def backslash_def)
qed

lemma cssRule_first: "cssRule file index \<noteq> js ''@font-face { ''"
  by (simp add: cssRule_def js_def)

lemma fontFace_lines_no_newline:
  assumes "0x0A \<notin> set fontName"
  shows "\<forall>l \<in> set (fontFace_lines fontName). 0x0A \<notin> set l"
  using assms by (simp add: fontFace_lines_def js_def sq_def dq_def)

lemma fontFace_lines_count:
  "count_list (fontFace_lines fontName) (js ''@font-face { '') = 1"
  by (simp add: fontFace_lines_def js_def sq_def dq_def)

subsection \<open>The lines of the stylesheet\<close>

lemma cssOutput_structure:
  assumes "svgFiles \<noteq> []" and "0x0A \<notin> set fontName"
  shows "split_lines (cssOutput fontName (cssContent svgFiles))
      = fontFace_lines fontName @ [[]] @ cssContent svgFiles
    \<and> take 7 (split_lines (cssOutput fontName (cssContent svgFiles)))
      = [[],
         js ''@font-face { '',
         js ''  font-family: '' @ sq @ fontName @ sq @ js ''; '',
         js ''  src: url('' @ sq @ fontName @ js ''.woff2'' @ sq @ js '') format(''
           @ sq @ js ''woff2'' @ sq @ js ''); '',
         js ''  font-weight: normal; '',
         js ''  font-style: normal; '',
         js ''} '']
    \<and> count_list (split_lines (cssOutput fontName (cssContent svgFiles)))
        (js ''@font-face { '') = 1
    \<and> length (cssContent svgFiles) = length svgFiles
    \<and> (\<forall>i < length svgFiles.
          cssContent svgFiles ! i
            = js ''.icon-'' @ glyphName (svgFiles ! i) @ js '':before { content: '' @ dq
              @ backslash @ numberToString 16 (codePoint i) @ dq @ js ''; }''
          \<and> Some (hex_value (numberToString 16 (codePoint i))) = codePoint i)"
proof -
  let ?rules = "cssContent svgFiles"
  let ?all = "fontFace_lines fontName @ [[]] @ ?rules"
  from assms(1) have rules: "?rules \<noteq> []"
    using cssContent_length [of svgFiles] by auto
  have header: "fontFace_lines fontName \<noteq> []"
    by (simp add: fontFace_lines_def)
  have "array_join newline ([[]] @ ?rules) = newline @ array_join newline ?rules"
    using rules by (cases ?rules) simp_all
  then have "cssOutput fontName ?rules = array_join newline ?all"
    using header by (simp add: cssOutput_def fontFace_def array_join_append)
  moreover have "\<forall>l \<in> set ?rules. 0x0A \<notin> set l"
    by (auto simp add: cssContent_def cssRule_no_newline)
  then have "\<forall>l \<in> set ?all. 0x0A \<notin> set l"
    using fontFace_lines_no_newline [OF assms(2)] by auto
  ultimately have lines: "split_lines (cssOutput fontName ?rules) = ?all"
    using split_on_array_join [of ?all "0x0A"] by (simp add: split_lines_def newline_def)
  have "js ''@font-face { '' \<notin> set ?rules"
    using cssRule_first by (fastforce simp add: cssContent_def)
  then have "count_list ?rules (js ''@font-face { '') = 0"
    by (simp add: count_list_0_iff)
  moreover have "js ''@font-face { '' \<noteq> []"
    by (simp add: js_def)
  ultimately have once: "count_list ?all (js ''@font-face { '') = 1"
    by (simp add: fontFace_lines_count)
  have block: "take 7 ?all
      = [[],
         js ''@font-face { '',
         js ''  font-family: '' @ sq @ fontName @ sq @ js ''; '',
         js ''  src: url('' @ sq @ fontName @ js ''.woff2'' @ sq @ js '') format(''
           @ sq @ js ''woff2'' @ sq @ js ''); '',
         js ''  font-weight: normal; '',
         js ''  font-style: normal; '',
         js ''} '']"
    by (simp add: fontFace_lines_def)
  show ?thesis
    using lines once block
    by (simp only: cssContent_length) (simp add: cssContent_nth cssRule_codePoint codePoint_hex)
qed

text \<open>Runs in the example world with three icons and an output directory.\<close>

lemma example_files3:
  "readSVGFiles (example_env s [js ''a.svg'', js ''notes.txt'', js ''b.svg'', js ''c 1.svg'']
       i typed stream ttf) (js ''/p/svg'')
     = Inr [js ''/p/svg/a.svg'', js ''/p/svg/b.svg'', js ''/p/svg/c 1.svg'']"
proof -
  have "join [js ''/p/svg'', js ''a.svg''] = js ''/p/svg/a.svg''"
    "join [js ''/p/svg'', js ''b.svg''] = js ''/p/svg/b.svg''"
    "join [js ''/p/svg'', js ''c 1.svg''] = js ''/p/svg/c 1.svg''"
    by code_simp+
  moreover have "endsWith (js ''a.svg'') (js ''.svg'')" "endsWith (js ''b.svg'') (js ''.svg'')"
    "endsWith (js ''c 1.svg'') (js ''.svg'')" "\<not> endsWith (js ''notes.txt'') (js ''.svg'')"
    by (simp_all add: endsWith_def slice_def js_def)
  ultimately show ?thesis
    by (simp add: readSVGFiles_def example_env_fields)
qed

lemma example_confirmed:
  "confirmed (example_env s entries i typed stream ttf) (js '' S '')"
  by (simp add: confirmed_def example_env_fields trim_def is_space_def ascii_lower_def js_def)

lemma example_reaches3:
  "reaches_generateFont
     (example_env True [js ''a.svg'', js ''notes.txt'', js ''b.svg'', js ''c 1.svg''] True
        (Some (js '' S '')) stream ttf)
     [js ''/p/svg/a.svg'', js ''/p/svg/b.svg'', js ''/p/svg/c 1.svg'']"
  by (simp add: reaches_generateFont_def example_env_fields example_env_paths example_files3
      example_confirmed)

subsection \<open>The emitted stylesheet\<close>

text \<open>
  C3. Let the input directory hold the non-empty list \<open>svgFiles\<close> of collected files.
  \<^item> The only text a run writes is the stylesheet of these files, to \<open>icons.css\<close> in
    the output directory; a run that reports completion has written it.
  \<^item> A run that gets as far as \<open>generateFont\<close>, in which the font stream finishes once,
    no read stream fails, the two converters return and the two files can be written,
    writes the font and then this stylesheet, and nothing else.
  \<^item> The lines of the stylesheet are the lines of the font-face template, an empty line,
    and then the glyph rules. The font-face block stands once, at the head, with the
    family \<open>icons\<close>, the source \<open>icons.woff2\<close> and its format \<open>woff2\<close>, weight and
    style \<open>normal\<close>. There are as many rules as files, in the order of the files, and
    the rule of the file at position \<open>i\<close> is \<open>.icon-NAME:before { content: "\HEX"; }\<close>
    with the glyph name of that file and the hexadecimal digits of its code point.
\<close>

theorem stylesheet_structure:
  assumes "readSVGFiles e (join [cwd e, js ''svg'']) = Inr svgFiles"
    and "svgFiles \<noteq> []"
  shows "(\<forall>p t. WriteFile p (Text t) \<in> set (effects (main e))
        \<longrightarrow> p = join [join [cwd e, js ''icons''], js ''icons'' @ js ''.css'']
            \<and> t = cssOutput (js ''icons'') (cssContent svgFiles))
    \<and> (Console Complete \<in> set (effects (main e))
        \<longrightarrow> WriteFile (join [join [cwd e, js ''icons''], js ''icons'' @ js ''.css''])
              (Text (cssOutput (js ''icons'') (cssContent svgFiles)))
            \<in> set (effects (main e)))
    \<and> (reaches_generateFont e svgFiles
          \<and> fontStream e (js ''icons'') (glyphs svgFiles) = before @ Finish # later
          \<and> plain before \<and> plain later
          \<and> transcode e (collected e before) = Inr woff2
          \<and> writeFileSync e (join [join [cwd e, js ''icons''], js ''icons'' @ js ''.woff2''])
                (Binary woff2) = None
          \<and> writeFileSync e (join [join [cwd e, js ''icons''], js ''icons'' @ js ''.css''])
                (Text (cssOutput (js ''icons'') (cssContent svgFiles))) = None
        \<longrightarrow> written (effects (main e))
            = [(join [join [cwd e, js ''icons''], js ''icons'' @ js ''.woff2''], Binary woff2),
               (join [join [cwd e, js ''icons''], js ''icons'' @ js ''.css''],
                Text (cssOutput (js ''icons'') (cssContent svgFiles)))]
          \<and> Console Complete \<in> set (effects (main e)))
    \<and> split_lines (cssOutput (js ''icons'') (cssContent svgFiles))
      = fontFace_lines (js ''icons'') @ [[]] @ cssContent svgFiles
    \<and> take 7 (split_lines (cssOutput (js ''icons'') (cssContent svgFiles)))
      = [[],
         js ''@font-face { '',
         js ''  font-family: '' @ sq @ js ''icons'' @ sq @ js ''; '',
         js ''  src: url('' @ sq @ js ''icons'' @ js ''.woff2'' @ sq @ js '') format(''
           @ sq @ js ''woff2'' @ sq @ js ''); '',
         js ''  font-weight: normal; '',
         js ''  font-style: normal; '',
         js ''} '']
    \<and> count_list (split_lines (cssOutput (js ''icons'') (cssContent svgFiles)))
        (js ''@font-face { '') = 1
    \<and> length (cssContent svgFiles) = length svgFiles
    \<and> (\<forall>i < length svgFiles.
          cssContent svgFiles ! i
            = js ''.icon-'' @ glyphName (svgFiles ! i) @ js '':before { content: '' @ dq
              @ backslash @ numberToString 16 (codePoint i) @ dq @ js ''; }''
          \<and> Some (hex_value (numberToString 16 (codePoint i))) = codePoint i)"
proof -
  let ?css = "cssOutput (js ''icons'') (cssContent svgFiles)"
  let ?cssPath = "join [join [cwd e, js ''icons''], js ''icons'' @ js ''.css'']"
  let ?woff2Path = "join [join [cwd e, js ''icons''], js ''icons'' @ js ''.woff2'']"
  have "0x0A \<notin> set (js ''icons'')"
    by (simp add: js_def)
  note layout = cssOutput_structure [OF assms(2) this]
  have only: "\<forall>p t. WriteFile p (Text t) \<in> set (effects (main e))
      \<longrightarrow> p = ?cssPath \<and> t = ?css"
  proof (intro allI impI)
    fix p t
    assume "WriteFile p (Text t) \<in> set (effects (main e))"
    from main_written [OF this] obtain fs where reach: "reaches_generateFont e fs"
      and "p = ?cssPath \<and> t = cssOutput (js ''icons'') (cssContent fs)"
      by auto
    moreover from reach assms(1) have "fs = svgFiles"
      by (rule reaches_generateFont_files)
    ultimately show "p = ?cssPath \<and> t = ?css"
      by simp
  qed
  have finished: "Console Complete \<in> set (effects (main e))
      \<longrightarrow> WriteFile ?cssPath (Text ?css) \<in> set (effects (main e))"
  proof
    assume "Console Complete \<in> set (effects (main e))"
    from main_complete [OF this] obtain fs a b w where reach: "reaches_generateFont e fs"
      and run: "effects (main e) = a @ [WriteFile ?woff2Path (Binary w),
        WriteFile ?cssPath (Text (cssOutput (js ''icons'') (cssContent fs))),
        Console Complete, RlClose] @ b"
      by blast
    from reach assms(1) have "fs = svgFiles"
      by (rule reaches_generateFont_files)
    with run show "WriteFile ?cssPath (Text ?css) \<in> set (effects (main e))"
      by simp
  qed
  have ordinary: "reaches_generateFont e svgFiles
          \<and> fontStream e (js ''icons'') (glyphs svgFiles) = before @ Finish # later
          \<and> plain before \<and> plain later
          \<and> transcode e (collected e before) = Inr woff2
          \<and> writeFileSync e ?woff2Path (Binary woff2) = None
          \<and> writeFileSync e ?cssPath (Text ?css) = None
        \<longrightarrow> written (effects (main e)) = [(?woff2Path, Binary woff2), (?cssPath, Text ?css)]
          \<and> Console Complete \<in> set (effects (main e))"
  proof
    assume a: "reaches_generateFont e svgFiles
          \<and> fontStream e (js ''icons'') (glyphs svgFiles) = before @ Finish # later
          \<and> plain before \<and> plain later
          \<and> transcode e (collected e before) = Inr woff2
          \<and> writeFileSync e ?woff2Path (Binary woff2) = None
          \<and> writeFileSync e ?cssPath (Text ?css) = None"
    then have "main e = \<lparr>effects = before_generateFont e @ stream_errors before
        @ on_finish e (collected e before) (cssContent svgFiles) (js ''icons'')
            (join [cwd e, js ''icons''])
        @ stream_errors later, exit_status = 0\<rparr>"
      by (intro main_single_finish) simp_all
    moreover from a have "on_finish e (collected e before) (cssContent svgFiles) (js ''icons'')
        (join [cwd e, js ''icons''])
        = [WriteFile ?woff2Path (Binary woff2), WriteFile ?cssPath (Text ?css),
           Console Complete, RlClose]"
      by (intro on_finish_complete) simp_all
    ultimately have "main e = \<lparr>effects = before_generateFont e @ stream_errors before
        @ [WriteFile ?woff2Path (Binary woff2), WriteFile ?cssPath (Text ?css),
           Console Complete, RlClose]
        @ stream_errors later, exit_status = 0\<rparr>"
      by simp
    then show "written (effects (main e)) = [(?woff2Path, Binary woff2), (?cssPath, Text ?css)]
          \<and> Console Complete \<in> set (effects (main e))"
      by (simp add: written_append stream_errors_quiet before_generateFont_messages)
  qed
  from only finished ordinary layout show ?thesis
    by (intro conjI) blast+
qed

theorem stylesheet_structure_witness:
  "written (effects (main (example_env True
       [js ''a.svg'', js ''notes.txt'', js ''b.svg'', js ''c 1.svg''] True (Some (js '' S ''))
       [Data (StringChunk (js ''<svg/>'')), Finish] (Inr [0x77]))))
     = [(js ''/p/icons/icons.woff2'', Binary [0x77]),
        (js ''/p/icons/icons.css'',
         Text (cssOutput (js ''icons'')
           (cssContent [js ''/p/svg/a.svg'', js ''/p/svg/b.svg'', js ''/p/svg/c 1.svg''])))]
   \<and> length (split_lines (cssOutput (js ''icons'')
      (cssContent [js ''/p/svg/a.svg'', js ''/p/svg/b.svg'', js ''/p/svg/c 1.svg'']))) = 22
   \<and> drop 19 (split_lines (cssOutput (js ''icons'')
      (cssContent [js ''/p/svg/a.svg'', js ''/p/svg/b.svg'', js ''/p/svg/c 1.svg''])))
     = [js ''.icon-a:before { content: '' @ dq @ backslash @ js ''e000'' @ dq @ js ''; }'',
        js ''.icon-b:before { content: '' @ dq @ backslash @ js ''e001'' @ dq @ js ''; }'',
        js ''.icon-c-1:before { content: '' @ dq @ backslash @ js ''e002'' @ dq @ js ''; }'']"
proof -
  let ?e = "example_env True [js ''a.svg'', js ''notes.txt'', js ''b.svg'', js ''c 1.svg'']
    True (Some (js '' S '')) [Data (StringChunk (js ''<svg/>'')), Finish] (Inr [0x77])"
  let ?files = "[js ''/p/svg/a.svg'', js ''/p/svg/b.svg'', js ''/p/svg/c 1.svg'']"
  let ?lines = "split_lines (cssOutput (js ''icons'') (cssContent ?files))"
  have h1: "readSVGFiles ?e (join [cwd ?e, js ''svg'']) = Inr ?files"
    by (simp add: example_env_fields example_env_paths example_files3)
  have h2: "?files \<noteq> []"
    by simp
  have h3: "reaches_generateFont ?e ?files
      \<and> fontStream ?e (js ''icons'') (glyphs ?files)
          = [Data (StringChunk (js ''<svg/>''))] @ Finish # []
      \<and> plain [Data (StringChunk (js ''<svg/>''))] \<and> plain []
      \<and> transcode ?e (collected ?e [Data (StringChunk (js ''<svg/>''))]) = Inr [0x77]
      \<and> writeFileSync ?e (join [join [cwd ?e, js ''icons''], js ''icons'' @ js ''.woff2''])
            (Binary [0x77]) = None
      \<and> writeFileSync ?e (join [join [cwd ?e, js ''icons''], js ''icons'' @ js ''.css''])
            (Text (cssOutput (js ''icons'') (cssContent ?files))) = None"
    by (simp add: example_reaches3 example_env_fields example_transcode)
  have names: "glyphName (js ''/p/svg/a.svg'') = js ''a''"
    "glyphName (js ''/p/svg/b.svg'') = js ''b''"
    "glyphName (js ''/p/svg/c 1.svg'') = js ''c-1''"
    by code_simp+
  have points: "numberToString 16 (codePoint 0) = js ''e000''"
    "numberToString 16 (codePoint 1) = js ''e001''"
    "numberToString 16 (codePoint 2) = js ''e002''"
    by (simp_all add: codePoint_mod numberToString_def natToString.simps digit_char_def js_def)
  from stylesheet_structure [OF h1 h2, where before = "[Data (StringChunk (js ''<svg/>''))]"
      and later = "[]" and ?woff2.0 = "[0x77]"] h3
  have wr: "written (effects (main ?e))
      = [(join [join [cwd ?e, js ''icons''], js ''icons'' @ js ''.woff2''], Binary [0x77]),
         (join [join [cwd ?e, js ''icons''], js ''icons'' @ js ''.css''],
          Text (cssOutput (js ''icons'') (cssContent ?files)))]"
    and lines: "?lines = fontFace_lines (js ''icons'') @ [[]] @ cssContent ?files"
    and len: "length (cssContent ?files) = length ?files"
    and rule: "\<And>i. i < length ?files \<Longrightarrow> cssContent ?files ! i
        = js ''.icon-'' @ glyphName (?files ! i) @ js '':before { content: '' @ dq
          @ backslash @ numberToString 16 (codePoint i) @ dq @ js ''; }''"
    by blast+
  from wr have wr': "written (effects (main ?e))
      = [(js ''/p/icons/icons.woff2'', Binary [0x77]),
         (js ''/p/icons/icons.css'', Text (cssOutput (js ''icons'') (cssContent ?files)))]"
    by (simp add: example_env_fields example_env_paths example_output_paths)
  have header: "length (fontFace_lines (js ''icons'')) = 18"
    by (simp add: fontFace_lines_def)
  from len obtain r0 r1 r2 where rules: "cssContent ?files = [r0, r1, r2]"
    by (cases "cssContent ?files"; cases "tl (cssContent ?files)";
        cases "tl (tl (cssContent ?files))") auto
  have "r0 = js ''.icon-'' @ glyphName (js ''/p/svg/a.svg'') @ js '':before { content: '' @ dq
      @ backslash @ numberToString 16 (codePoint 0) @ dq @ js ''; }''"
    using rule [of 0] by (simp add: rules)
  then have
    "r0 = js ''.icon-a:before { content: '' @ dq @ backslash @ js ''e000'' @ dq @ js ''; }''"
    by (simp only: names points) (simp add: js_def)
  moreover
  have "r1 = js ''.icon-'' @ glyphName (js ''/p/svg/b.svg'') @ js '':before { content: '' @ dq
      @ backslash @ numberToString 16 (codePoint 1) @ dq @ js ''; }''"
    using rule [of 1] by (simp add: rules)
  then have
    "r1 = js ''.icon-b:before { content: '' @ dq @ backslash @ js ''e001'' @ dq @ js ''; }''"
    by (simp only: names points) (simp add: js_def)
  moreover
  have "r2 = js ''.icon-'' @ glyphName (js ''/p/svg/c 1.svg'') @ js '':before { content: '' @ dq
      @ backslash @ numberToString 16 (codePoint 2) @ dq @ js ''; }''"
    using rule [of 2] by (simp add: rules)
  then have
    "r2 = js ''.icon-c-1:before { content: '' @ dq @ backslash @ js ''e002'' @ dq @ js ''; }''"
    by (simp only: names points) (simp add: js_def)
  ultimately show ?thesis
    using lines header rules wr' by simp
qed

section \<open>Properties of the change detector\<close>

subsection \<open>Decimal digits\<close>

lemma digit_char_decimal:
  assumes "d < 10"
  shows "is_digit (digit_char d)" "unat (digit_char d) = 0x30 + d"
proof -
  have u: "unat (word_of_nat (0x30 + d) :: jschar) = 0x30 + d"
    using assms by (simp only: unat_of_nat) simp
  then show "unat (digit_char d) = 0x30 + d"
    using assms by (simp add: digit_char_def)
  then show "is_digit (digit_char d)"
    using assms by (simp add: is_digit_def word_le_nat_alt)
qed

lemma ucast_digit:
  assumes "is_digit c"
  shows "is_digit_byte (ucast c)" "unat (ucast c :: 8 word) = unat c"
proof -
  from assms have "unat c < 256"
    by (simp add: is_digit_def word_le_nat_alt)
  then show u: "unat (ucast c :: 8 word) = unat c"
    by (simp add: unsigned_ucast_eq take_bit_nat_eq_self)
  from assms show "is_digit_byte (ucast c)"
    by (simp add: is_digit_def is_digit_byte_def word_le_nat_alt u)
qed

lemma utf8_encode_digits:
  assumes "\<forall>c \<in> set s. is_digit c"
  shows "utf8_encode s = map ucast s"
  using assms
proof (induction s rule: utf8_encode.induct)
  case 1
  then show ?case by simp
next
  case (2 c)
  then have "unat c < 0x80" "\<not> is_high_surrogate c" "\<not> is_low_surrogate c"
    by (simp_all add: is_digit_def is_high_surrogate_def is_low_surrogate_def word_le_nat_alt)
  then show ?case
    by (simp add: utf8_code_point_def)
next
  case (3 c d cs)
  then have "unat c < 0x80" "\<not> is_high_surrogate c" "\<not> is_low_surrogate c"
    by (simp_all add: is_digit_def is_high_surrogate_def is_low_surrogate_def word_le_nat_alt)
  with 3 show ?case
    by (simp add: utf8_code_point_def)
qed

lemma natToString_decimal:
  "natToString 10 n \<noteq> [] \<and> (\<forall>c \<in> set (natToString 10 n). is_digit c)
   \<and> dec_value (map ucast (natToString 10 n)) = n"
proof (induction n rule: less_induct)
  case (less n)
  show ?case
  proof (cases "n < 10")
    case True
    then have "natToString 10 n = [digit_char n]"
      by (subst natToString.simps) simp
    with True digit_char_decimal [of n] ucast_digit [of "digit_char n"] show ?thesis
      by (simp add: dec_value_def)
  next
    case False
    then have unfold: "natToString 10 n = natToString 10 (n div 10) @ [digit_char (n mod 10)]"
      by (subst natToString.simps) simp
    from False have "n div 10 < n"
      by simp
    from less.IH [OF this] digit_char_decimal [of "n mod 10"]
      ucast_digit [of "digit_char (n mod 10)"]
    show ?thesis
      by (simp add: unfold dec_value_def)
  qed
qed

lemma decimal_bytes:
  "utf8_encode (natToString 10 n) \<noteq> []"
  "\<forall>b \<in> set (utf8_encode (natToString 10 n)). is_digit_byte b"
  "dec_value (utf8_encode (natToString 10 n)) = n"
  using natToString_decimal [of n]
  by (simp_all add: utf8_encode_digits ucast_digit)

lemma decimal_bytes_inject:
  "utf8_encode (natToString 10 m) = utf8_encode (natToString 10 n) \<Longrightarrow> m = n"
  by (metis decimal_bytes(3))

subsection \<open>Where a run of digits ends\<close>

lemma byte_of_nat: "k < 256 \<Longrightarrow> unat (word_of_nat k :: 8 word) = k"
  by (simp only: unat_of_nat) simp

lemma byte_not_digit: "k < 256 \<Longrightarrow> 0x39 < k \<Longrightarrow> \<not> is_digit_byte (word_of_nat k)"
  by (simp only: is_digit_byte_def word_le_nat_alt byte_of_nat) simp

lemma utf8_code_point_first:
  assumes "cp < 0x110000" "cp < 0x30 \<or> 0x39 < cp"
  shows "utf8_code_point cp \<noteq> [] \<and> \<not> is_digit_byte (hd (utf8_code_point cp))"
proof -
  consider "cp < 0x80" | "0x80 \<le> cp" "cp < 0x800" | "0x800 \<le> cp" "cp < 0x10000"
    | "0x10000 \<le> cp"
    by linarith
  then show ?thesis
  proof cases
    case 1
    with assms(2) show ?thesis
      by (auto simp add: utf8_code_point_def is_digit_byte_def word_le_nat_alt byte_of_nat)
  next
    case 2
    then have "hd (utf8_code_point cp) = word_of_nat (0xC0 + cp div 0x40)"
      "utf8_code_point cp \<noteq> []"
      by (simp_all add: utf8_code_point_def del: of_nat_add)
    moreover from 2 have "0xC0 + cp div 0x40 < 256" "0x39 < 0xC0 + cp div 0x40"
      by simp_all
    ultimately show ?thesis
      by (simp only: byte_not_digit simp_thms)
  next
    case 3
    then have "hd (utf8_code_point cp) = word_of_nat (0xE0 + cp div 0x1000)"
      "utf8_code_point cp \<noteq> []"
      by (simp_all add: utf8_code_point_def del: of_nat_add)
    moreover from 3 have "0xE0 + cp div 0x1000 < 256" "0x39 < 0xE0 + cp div 0x1000"
      by simp_all
    ultimately show ?thesis
      by (simp only: byte_not_digit simp_thms)
  next
    case 4
    then have "hd (utf8_code_point cp) = word_of_nat (0xF0 + cp div 0x40000)"
      "utf8_code_point cp \<noteq> []"
      by (simp_all add: utf8_code_point_def del: of_nat_add)
    moreover from 4 assms(1) have "0xF0 + cp div 0x40000 < 256" "0x39 < 0xF0 + cp div 0x40000"
      by simp_all
    ultimately show ?thesis
      by (simp only: byte_not_digit simp_thms)
  qed
qed

lemma surrogate_pair_bound:
  assumes "is_high_surrogate c" "is_low_surrogate d"
  shows "0x10000 + (unat c - 0xD800) * 0x400 + (unat d - 0xDC00) < 0x110000"
proof -
  from assms have "unat c \<le> 0xDBFF" "unat d \<le> 0xDFFF"
    by (simp_all add: is_high_surrogate_def is_low_surrogate_def word_le_nat_alt)
  then have "unat c - 0xD800 \<le> 0x3FF" "unat d - 0xDC00 \<le> 0x3FF"
    by simp_all
  then have "(unat c - 0xD800) * 0x400 \<le> 0x3FF * 0x400" "unat d - 0xDC00 \<le> 0x3FF"
    by simp_all
  then show ?thesis
    by linarith
qed

lemma utf8_encode_first:
  assumes "no_leading_digit p"
  shows "utf8_encode p \<noteq> [] \<and> \<not> is_digit_byte (hd (utf8_encode p))"
proof -
  from assms obtain c cs where p: "p = c # cs" and c: "\<not> is_digit c"
    by (cases p) (simp_all add: no_leading_digit_def)
  have replacement: "\<not> is_digit_byte 0xEF"
    by (simp add: is_digit_byte_def)
  have "unat c < 0x10000"
    using unsigned_less [of c] by simp
  then have plain: "unat c < 0x110000" "unat c < 0x30 \<or> 0x39 < unat c"
    using c by (auto simp add: is_digit_def word_le_nat_alt)
  show ?thesis
  proof (cases cs)
    case Nil
    with p replacement utf8_code_point_first [OF plain] show ?thesis
      by simp
  next
    case (Cons d ds)
    show ?thesis
    proof (cases "is_high_surrogate c \<and> is_low_surrogate d")
      case True
      let ?cp = "0x10000 + (unat c - 0xD800) * 0x400 + (unat d - 0xDC00)"
      from True have "?cp < 0x110000"
        by (simp add: surrogate_pair_bound)
      moreover have "0x39 < ?cp"
        by simp
      ultimately have "utf8_code_point ?cp \<noteq> [] \<and> \<not> is_digit_byte (hd (utf8_code_point ?cp))"
        by (intro utf8_code_point_first) simp_all
      with p Cons True show ?thesis
        by simp
    next
      case False
      show ?thesis
      proof (cases "is_high_surrogate c \<or> is_low_surrogate c")
        case True
        with False p Cons replacement show ?thesis
          by auto
      next
        case neither: False
        with False p Cons utf8_code_point_first [OF plain] show ?thesis
          by auto
      qed
    qed
  qed
qed

lemma digit_run:
  assumes "\<forall>b \<in> set xs. is_digit_byte b" "\<forall>b \<in> set ys. is_digit_byte b"
    and "stops t" "stops t'"
    and "xs @ t = ys @ t'"
  shows "xs = ys \<and> t = t'"
  using assms
proof (induction xs arbitrary: ys)
  case Nil
  then show ?case
    by (cases ys) (auto simp add: stops_def)
next
  case (Cons x xs)
  show ?case
  proof (cases ys)
    case Nil
    with Cons.prems show ?thesis
      by (auto simp add: stops_def)
  next
    case (Cons y ys')
    with Cons.prems Cons.IH [of ys'] show ?thesis
      by simp
  qed
qed

lemma stops_pairs:
  assumes "\<forall>p \<in> set (map fst pairs). no_leading_digit p"
  shows "stops (concat (map pair_bytes pairs))"
proof (cases pairs)
  case Nil
  then show ?thesis by (simp add: stops_def)
next
  case (Cons pair rest)
  with assms have "no_leading_digit (fst pair)"
    by simp
  from utf8_encode_first [OF this] Cons show ?thesis
    by (simp add: stops_def pair_bytes_def)
qed

subsection \<open>What is hashed\<close>

lemma hash_files_sized:
  "sized statSync files = Some pairs \<Longrightarrow>
     hash_files statSync files hash = Inr (hash @ concat (map pair_bytes pairs))"
proof (induction files arbitrary: hash pairs)
  case Nil
  then show ?case by simp
next
  case (Cons f files)
  then show ?case
    by (auto simp add: hash_update_def pair_bytes_def split: sum.splits option.splits)
qed

lemma sized_paths: "sized statSync files = Some pairs \<Longrightarrow> map fst pairs = files"
  by (induction files arbitrary: pairs) (auto split: sum.splits option.splits)

lemma hashed_bytes_sized:
  assumes "sized statSync files = Some pairs"
  shows "hashed_bytes statSync files = Inr (pairs_bytes pairs)"
proof -
  from sized_paths [OF assms] have "length files = length pairs"
    by (metis length_map)
  with hash_files_sized [OF assms] show ?thesis
    by (simp add: hashed_bytes_def pairs_bytes_def hash_update_def)
qed

lemma getSVGFilesHash_hashed:
  "getSVGFilesHash md5_hex statSync files =
     (case hashed_bytes statSync files of Inl err \<Rightarrow> Inl err | Inr hash \<Rightarrow> Inr (md5_hex hash))"
  by (simp add: getSVGFilesHash_def hashed_bytes_def)

lemma pairs_bytes_length:
  assumes "\<forall>p \<in> set (map fst ps). no_leading_digit p"
    and "\<forall>p \<in> set (map fst qs). no_leading_digit p"
    and "pairs_bytes ps = pairs_bytes qs"
  shows "length ps = length qs"
proof -
  from digit_run [OF decimal_bytes(2) decimal_bytes(2) stops_pairs [OF assms(1)]
      stops_pairs [OF assms(2)], of "length ps" "length qs"] assms(3)
  have "utf8_encode (natToString 10 (length ps)) = utf8_encode (natToString 10 (length qs))"
    by (simp add: pairs_bytes_def)
  then show ?thesis
    by (rule decimal_bytes_inject)
qed

lemma pairs_bytes_sizes:
  assumes "map fst ps = map fst qs"
    and "\<forall>p \<in> set (map fst ps). no_leading_digit p"
    and "concat (map pair_bytes ps) = concat (map pair_bytes qs)"
  shows "ps = qs"
  using assms
proof (induction ps arbitrary: qs)
  case Nil
  then show ?case by simp
next
  case (Cons x ps)
  then obtain y qs' where qs: "qs = y # qs'" and paths: "fst x = fst y" "map fst ps = map fst qs'"
    by (cases qs) auto
  from Cons.prems(2) paths have rest: "\<forall>p \<in> set (map fst ps). no_leading_digit p"
    "\<forall>p \<in> set (map fst qs'). no_leading_digit p"
    by simp_all
  from Cons.prems(3) qs
  have "pair_bytes x @ concat (map pair_bytes ps) = pair_bytes y @ concat (map pair_bytes qs')"
    by simp
  then have "utf8_encode (natToString 10 (snd x)) @ concat (map pair_bytes ps)
      = utf8_encode (natToString 10 (snd y)) @ concat (map pair_bytes qs')"
    unfolding pair_bytes_def [of x] pair_bytes_def [of y] paths(1) by simp
  from digit_run [OF decimal_bytes(2) decimal_bytes(2) stops_pairs [OF rest(1)]
      stops_pairs [OF rest(2)] this]
  have "utf8_encode (natToString 10 (snd x)) = utf8_encode (natToString 10 (snd y))"
    and tails: "concat (map pair_bytes ps) = concat (map pair_bytes qs')"
    by simp_all
  then have "snd x = snd y"
    by (simp add: decimal_bytes_inject)
  with paths(1) have "x = y"
    by (simp add: prod_eq_iff)
  moreover from Cons.IH [OF paths(2) rest(1) tails] have "ps = qs'" .
  ultimately show ?case
    using qs by simp
qed

subsection \<open>The digest\<close>

lemma stat_examples:
  "sized stat_example_1 [js ''a.svg'', js ''1.svg''] = Some [(js ''a.svg'', 5), (js ''1.svg'', 17)]"
  "sized stat_example_2 [js ''a.svg'', js ''.svg''] = Some [(js ''a.svg'', 51), (js ''.svg'', 17)]"
  "sized stat_example_3 [js ''/p/svg/a.svg''] = Some [(js ''/p/svg/a.svg'', 5)]"
  "sized stat_example_3 [js ''/p/svg/a.svg'', js ''/p/svg/b.svg'']
     = Some [(js ''/p/svg/a.svg'', 5), (js ''/p/svg/b.svg'', 7)]"
  "sized stat_example_4 [js ''/p/svg/a.svg''] = Some [(js ''/p/svg/a.svg'', 6)]"
  by (simp_all add: stat_example_1_def stat_example_2_def stat_example_3_def
      stat_example_4_def) (simp_all add: js_def)

text \<open>
  C4, as stated, fails: a directory with \<open>a.svg\<close> of 5 bytes and \<open>1.svg\<close> of 17 bytes,
  and a directory with \<open>a.svg\<close> of 51 bytes and \<open>.svg\<close> of 17 bytes, differ in a path
  and in a size and have the same digest, whatever the hash function: in both the hash
  object is given the bytes of \<open>2a.svg51.svg17\<close>.
\<close>

theorem digest_collision_counterexample:
  "[(js ''a.svg'', 5 :: nat), (js ''1.svg'', 17)] \<noteq> [(js ''a.svg'', 51), (js ''.svg'', 17)]
   \<and> sized stat_example_1 [js ''a.svg'', js ''1.svg'']
       = Some [(js ''a.svg'', 5), (js ''1.svg'', 17)]
   \<and> sized stat_example_2 [js ''a.svg'', js ''.svg'']
       = Some [(js ''a.svg'', 51), (js ''.svg'', 17)]
   \<and> hashed_bytes stat_example_1 [js ''a.svg'', js ''1.svg'']
       = Inr (utf8_encode (js ''2a.svg51.svg17''))
   \<and> hashed_bytes stat_example_2 [js ''a.svg'', js ''.svg'']
       = Inr (utf8_encode (js ''2a.svg51.svg17''))
   \<and> (\<forall>md5_hex. getSVGFilesHash md5_hex stat_example_1 [js ''a.svg'', js ''1.svg'']
         = getSVGFilesHash md5_hex stat_example_2 [js ''a.svg'', js ''.svg''])"
proof -
  have numbers: "natToString 10 (Suc (Suc 0)) = js ''2''" "natToString 10 5 = js ''5''"
    "natToString 10 17 = js ''17''" "natToString 10 51 = js ''51''"
    by (simp_all add: natToString.simps digit_char_def js_def)
  have encoded: "utf8_encode (js ''2'') @ utf8_encode (js ''a.svg'') @ utf8_encode (js ''5'')
      @ utf8_encode (js ''1.svg'') @ utf8_encode (js ''17'') = utf8_encode (js ''2a.svg51.svg17'')"
    "utf8_encode (js ''2'') @ utf8_encode (js ''a.svg'') @ utf8_encode (js ''51'')
      @ utf8_encode (js ''.svg'') @ utf8_encode (js ''17'') = utf8_encode (js ''2a.svg51.svg17'')"
    by code_simp+
  have 1: "hashed_bytes stat_example_1 [js ''a.svg'', js ''1.svg'']
      = Inr (utf8_encode (js ''2a.svg51.svg17''))"
    using encoded(1)
    by (simp add: hashed_bytes_sized [OF stat_examples(1)] pairs_bytes_def pair_bytes_def numbers)
  have 2: "hashed_bytes stat_example_2 [js ''a.svg'', js ''.svg'']
      = Inr (utf8_encode (js ''2a.svg51.svg17''))"
    using encoded(2)
    by (simp add: hashed_bytes_sized [OF stat_examples(2)] pairs_bytes_def pair_bytes_def numbers)
  have "js ''1.svg'' \<noteq> js ''.svg''"
    by (simp add: js_def)
  with 1 2 stat_examples(1,2) show ?thesis
    by (simp add: getSVGFilesHash_hashed)
qed

text \<open>
  C4, amended. The digest is a function of the \<open>{path, size}\<close> sequence: it is the hash
  of the count, the paths and the sizes written one after the other without separators,
  so identical sequences have identical digests. When every path is non-empty and does not
  begin with a decimal digit, two sequences of different length, and two sequences with
  the same paths and a different size somewhere, give the hash different bytes.
\<close>

theorem change_detector_digest:
  assumes "sized statSync svgFiles = Some pairs"
    and "sized statSync' svgFiles' = Some pairs'"
  shows "hashed_bytes statSync svgFiles = Inr (pairs_bytes pairs)
    \<and> getSVGFilesHash md5_hex statSync svgFiles = Inr (md5_hex (pairs_bytes pairs))
    \<and> (pairs = pairs' \<longrightarrow>
         getSVGFilesHash md5_hex statSync svgFiles = getSVGFilesHash md5_hex statSync' svgFiles')
    \<and> ((\<forall>p \<in> set svgFiles \<union> set svgFiles'. no_leading_digit p)
         \<and> length svgFiles \<noteq> length svgFiles'
       \<longrightarrow> hashed_bytes statSync svgFiles \<noteq> hashed_bytes statSync' svgFiles')
    \<and> ((\<forall>p \<in> set svgFiles. no_leading_digit p) \<and> svgFiles' = svgFiles \<and> pairs \<noteq> pairs'
       \<longrightarrow> hashed_bytes statSync svgFiles \<noteq> hashed_bytes statSync' svgFiles')"
proof -
  note h = hashed_bytes_sized [OF assms(1)] hashed_bytes_sized [OF assms(2)]
  note paths = sized_paths [OF assms(1)] sized_paths [OF assms(2)]
  have lengths: "length svgFiles = length pairs" "length svgFiles' = length pairs'"
    using paths by (metis length_map)+
  have count: "pairs_bytes pairs \<noteq> pairs_bytes pairs'"
    if "\<forall>p \<in> set svgFiles \<union> set svgFiles'. no_leading_digit p"
      and "length svgFiles \<noteq> length svgFiles'"
    using pairs_bytes_length [of pairs pairs'] that paths lengths by auto
  have sizes: "pairs_bytes pairs \<noteq> pairs_bytes pairs'"
    if "\<forall>p \<in> set svgFiles. no_leading_digit p" and "svgFiles' = svgFiles" and "pairs \<noteq> pairs'"
  proof
    assume eq: "pairs_bytes pairs = pairs_bytes pairs'"
    from that(2) lengths have "length pairs = length pairs'"
      by simp
    with eq have "concat (map pair_bytes pairs) = concat (map pair_bytes pairs')"
      by (simp add: pairs_bytes_def)
    moreover have "map fst pairs = map fst pairs'"
      using paths that(2) by simp
    moreover have "\<forall>p \<in> set (map fst pairs). no_leading_digit p"
      using paths(1) that(1) by simp
    ultimately have "pairs = pairs'"
      by (intro pairs_bytes_sizes)
    with that(3) show False
      by simp
  qed
  show ?thesis
    using h count sizes by (auto simp add: getSVGFilesHash_hashed)
qed

theorem change_detector_digest_witness:
  "sized stat_example_3 [js ''/p/svg/a.svg''] = Some [(js ''/p/svg/a.svg'', 5)]
   \<and> sized stat_example_4 [js ''/p/svg/a.svg''] = Some [(js ''/p/svg/a.svg'', 6)]
   \<and> no_leading_digit (js ''/p/svg/a.svg'') \<and> no_leading_digit (js ''/p/svg/b.svg'')
   \<and> hashed_bytes stat_example_3 [js ''/p/svg/a.svg'']
       \<noteq> hashed_bytes stat_example_4 [js ''/p/svg/a.svg'']
   \<and> hashed_bytes stat_example_3 [js ''/p/svg/a.svg'']
       \<noteq> hashed_bytes stat_example_3 [js ''/p/svg/a.svg'', js ''/p/svg/b.svg'']
   \<and> getSVGFilesHash (map ucast) stat_example_3 [js ''/p/svg/a.svg'']
       = Inr (map ucast (pairs_bytes [(js ''/p/svg/a.svg'', 5)]))"
proof -
  have paths: "no_leading_digit (js ''/p/svg/a.svg'')" "no_leading_digit (js ''/p/svg/b.svg'')"
    by (simp_all add: no_leading_digit_def is_digit_def js_def)
  have differ: "[(js ''/p/svg/a.svg'', 5 :: nat)] \<noteq> [(js ''/p/svg/a.svg'', 6)]"
    by simp
  have size_changed: "(\<forall>p \<in> set [js ''/p/svg/a.svg'']. no_leading_digit p)
      \<and> [js ''/p/svg/a.svg''] = [js ''/p/svg/a.svg'']
      \<and> [(js ''/p/svg/a.svg'', 5 :: nat)] \<noteq> [(js ''/p/svg/a.svg'', 6)]"
    using paths by simp
  from change_detector_digest [OF stat_examples(3) stat_examples(5), of "map ucast"]
    size_changed
  have 1: "hashed_bytes stat_example_3 [js ''/p/svg/a.svg'']
      \<noteq> hashed_bytes stat_example_4 [js ''/p/svg/a.svg'']"
    by blast
  have file_added: "(\<forall>p \<in> set [js ''/p/svg/a.svg'']
        \<union> set [js ''/p/svg/a.svg'', js ''/p/svg/b.svg'']. no_leading_digit p)
      \<and> length [js ''/p/svg/a.svg''] \<noteq> length [js ''/p/svg/a.svg'', js ''/p/svg/b.svg'']"
    using paths by simp
  from change_detector_digest [OF stat_examples(3) stat_examples(4), of "map ucast"]
    file_added
  have 2: "hashed_bytes stat_example_3 [js ''/p/svg/a.svg'']
      \<noteq> hashed_bytes stat_example_3 [js ''/p/svg/a.svg'', js ''/p/svg/b.svg'']"
    by blast
  from change_detector_digest [OF stat_examples(3) stat_examples(3), of "map ucast"]
  have 3: "getSVGFilesHash (map ucast) stat_example_3 [js ''/p/svg/a.svg'']
       = Inr (map ucast (pairs_bytes [(js ''/p/svg/a.svg'', 5)]))"
    by blast
  from 1 2 3 paths stat_examples(3,5) show ?thesis
    by blast
qed

end
